theory Spec2Isabelle
  imports Main "HOL-Library.Word" "HOL-Library.Sublist" "HOL-Library.Signed_Division"
begin

unbundle bit_operations_syntax

section \<open>Machine integers and failures\<close>

text \<open>
  The C sources use fixed-width integers.  Unsigned types are words whose arithmetic wraps;
  the C type \<open>int\<close> is a 32-bit word read through \<open>sint\<close>, with two's-complement
  wrap-around where C leaves signed overflow undefined.
\<close>

type_synonym u8 = "8 word"
type_synonym u16 = "16 word"
type_synonym u32 = "32 word"
type_synonym u64 = "64 word"
type_synonym s32 = "32 word"

text \<open>
  Every way in which a modelled function can fail to return: a null pointer dereference,
  a failed \<open>MMSM_ASSERT\<close> (the process exits), an integer division by zero, a read or a
  write past the end of a buffer, and a \<open>va_arg\<close> read that does not match the argument passed.
\<close>

datatype error =
    Null_deref
  | Assert_failed
  | Div_by_zero
  | Read_out_of_bounds
  | Write_out_of_bounds
  | Bad_va_arg

text \<open>
  C division and remainder on \<open>int\<close> truncate towards zero.  A zero divisor traps, and so
  does \<open>INT_MIN\<close> divided by \<open>-1\<close>; both are reported as \<open>Div_by_zero\<close>.
\<close>

definition c_div_traps :: "s32 \<Rightarrow> s32 \<Rightarrow> bool" where
  "c_div_traps a b \<longleftrightarrow> b = 0 \<or> (sint a = - (2 ^ 31) \<and> sint b = - 1)"

definition c_sdiv :: "s32 \<Rightarrow> s32 \<Rightarrow> s32" where
  "c_sdiv a b = word_of_int (sint a sdiv sint b)"

definition c_smod :: "s32 \<Rightarrow> s32 \<Rightarrow> s32" where
  "c_smod a b = word_of_int (sint a smod sint b)"

text \<open>
  \<open>abs\<close> from \<open>stdlib.h\<close> on a 32-bit \<open>int\<close>; \<open>abs(INT_MIN)\<close>, undefined in C, is the
  two's-complement result \<open>INT_MIN\<close>.
\<close>

definition c_abs :: "s32 \<Rightarrow> s32" where
  "c_abs d = (if sint d < 0 then - d else d)"

section \<open>Data item tree (mmsm\_data.h)\<close>

text \<open>
  \<open>mmsm_key_t\<close> is a tagged union; a freshly allocated item is zeroed, which is the key
  \<open>Key_U32 0\<close>.  \<open>mmsm_value\<close> is a byte buffer (\<open>None\<close> for the null pointer) whose
  length is \<open>mmsm_value_len\<close>; a byte is a \<open>char\<close>, and a string value carries its
  terminating NUL.  A sibling chain linked through \<open>mmsm_next\<close> is a list, the null pointer
  the empty list.  Allocation is taken to succeed.
\<close>

datatype mmsm_key = Key_U32 u32 | Key_String string

datatype mmsm_data_item =
  Data_item (mmsm_key: mmsm_key) (mmsm_value: "string option")
            (mmsm_sub_values: "mmsm_data_item list")

definition mmsm_value_len :: "mmsm_data_item \<Rightarrow> nat" where
  "mmsm_value_len item = (case mmsm_value item of None \<Rightarrow> 0 | Some v \<Rightarrow> length v)"

definition NUL :: char where
  "NUL = CHR 0x00"

text \<open>The C string that starts at the beginning of a buffer: the bytes before the first NUL.
  A buffer without a NUL is read past its end.\<close>

definition c_string :: "string \<Rightarrow> error + string" where
  "c_string buf = (if NUL \<in> set buf then Inr (takeWhile (\<lambda>c. c \<noteq> NUL) buf)
                   else Inl Read_out_of_bounds)"

definition mmsm_data_item_alloc :: mmsm_data_item where
  "mmsm_data_item_alloc = Data_item (Key_U32 0) None []"

definition mmsm_data_item_set_key_u32 :: "mmsm_data_item \<Rightarrow> u32 \<Rightarrow> mmsm_data_item" where
  "mmsm_data_item_set_key_u32 item key =
     Data_item (Key_U32 key) (mmsm_value item) (mmsm_sub_values item)"

definition mmsm_data_item_set_key_str :: "mmsm_data_item \<Rightarrow> string \<Rightarrow> mmsm_data_item" where
  "mmsm_data_item_set_key_str item str =
     Data_item (Key_String str) (mmsm_value item) (mmsm_sub_values item)"

definition mmsm_data_item_set_val_string :: "mmsm_data_item \<Rightarrow> string \<Rightarrow> mmsm_data_item" where
  "mmsm_data_item_set_val_string item str =
     Data_item (mmsm_key item) (Some (str @ [NUL])) (mmsm_sub_values item)"


section \<open>DCS data model (dcs.h)\<close>

text \<open>
  Modelled from the spec: \<open>struct morse_cmd_channel_info\<close> is declared in
  \<open>morse_commands.h\<close>, which is not among the sources.  The spec gives a channel the fields
  frequency (kHz), bandwidth (MHz) and S1G channel number; the widths are those the uses in
  \<open>dcs.c\<close> show (\<open>%u\<close> / \<open>uint32_t\<close> for the frequency, \<open>uint8_t bw\<close>).
\<close>

record morse_cmd_channel_info =
  frequency_khz :: u32
  bandwidth_mhz :: u8
  channel_s1g :: u8

record channel_metric =
  accumulated_score :: u32
  n_samples :: s32
  rounds_as_best :: s32

record dcs_channel =
  ch :: morse_cmd_channel_info
  metric :: channel_metric

record channel_measurement =
  meas_metric :: u8
  noise :: u8
  time_listen_us :: u64
  time_rx_us :: u64

text \<open>
  \<open>struct dcs\<close>.  A \<open>struct dcs_channel *\<close> always points into the array
  \<open>all_channels\<close> (or is null), so a channel pointer is an index into \<open>all_channels\<close>
  and the null pointer is \<open>None\<close>.  The intrusive scan list links elements of that array:
  it is the list of their indices, in list order.  \<open>log_level\<close> is the run-time log level
  that the \<open>LOG_*\<close> macros consult before they evaluate their arguments.
\<close>

record dcs =
  all_channels :: "dcs_channel list"
  current_channel :: "nat option"
  current_primary_ch_width :: s32
  current_prim_1mhz_ch_index :: s32
  current_5g_freq :: u32
  dtim_period :: u8
  beacon_interval :: u16
  scan_list :: "nat list"
  csa_in_progress :: bool
  csa_freq_5g :: u32
  dtims_for_csa :: s32
  csa_enabled :: bool
  log_level :: nat

definition LOG_LEVEL_INFO :: nat where
  "LOG_LEVEL_INFO = 3"

text \<open>Reading and writing through a channel pointer.\<close>

definition chan :: "dcs \<Rightarrow> nat \<Rightarrow> dcs_channel" where
  "chan ctx p = all_channels ctx ! p"

definition score :: "dcs \<Rightarrow> nat \<Rightarrow> u32" where
  "score ctx p = accumulated_score (metric (chan ctx p))"

definition freq :: "dcs \<Rightarrow> nat \<Rightarrow> u32" where
  "freq ctx p = frequency_khz (ch (chan ctx p))"

definition set_metric :: "dcs \<Rightarrow> nat \<Rightarrow> channel_metric \<Rightarrow> dcs" where
  "set_metric ctx p m =
     ctx\<lparr>all_channels := (all_channels ctx)[p := (chan ctx p)\<lparr>metric := m\<rparr>]\<rparr>"


section \<open>EWMA algorithm (algorithms/ewma.c)\<close>

record ewma_context =
  ewma_alpha :: u8
  ewma_threshold_percentage :: u8
  rounds_for_csa :: s32
  rounds_with_a_better_channel :: s32

definition EWMA_ALPHA_MAX :: u32 where
  "EWMA_ALPHA_MAX = 100"

text \<open>
  \<open>apply_ewma\<close>: all arithmetic is \<open>uint32_t\<close>; \<open>EWMA_ALPHA_MAX - alpha\<close> is computed in
  \<open>int\<close> and converted to \<open>uint32_t\<close>, which is subtraction modulo \<open>2^32\<close>; the result is
  cast to \<open>uint16_t\<close>.
\<close>

definition apply_ewma :: "u8 \<Rightarrow> u32 \<Rightarrow> u32 \<Rightarrow> u16" where
  "apply_ewma alpha new_score last_score =
     (let alpha_cur = (ucast alpha :: u32);
          alpha_last = EWMA_ALPHA_MAX - ucast alpha;
          out = (alpha_cur * new_score + alpha_last * last_score) div 100
      in ucast out)"

definition ewma_op_process_measurement ::
  "dcs \<Rightarrow> ewma_context \<Rightarrow> channel_measurement \<Rightarrow> nat \<Rightarrow> dcs" where
  "ewma_op_process_measurement ctx ewma meas channel =
     (let m = metric (chan ctx channel);
          m1 = m\<lparr>n_samples := n_samples m + 1\<rparr>;
          m2 = m1\<lparr>accumulated_score :=
                  ucast (apply_ewma (ewma_alpha ewma) (ucast (meas_metric meas))
                           (accumulated_score m1))\<rparr>
      in set_metric ctx channel m2)"

section \<open>Shared algorithm helpers (algo.c, algo.h)\<close>

text \<open>
  \<open>dcs_algo_get_channel_with_highest_score\<close>: the body of the \<open>list_for_each_entry\<close> loop,
  applied to the entries of the scan list in order, with \<open>best\<close> as the loop state.  The
  differences \<open>diff_next\<close> and \<open>diff_best\<close> are \<open>uint32_t\<close> subtractions stored in an
  \<open>int32_t\<close>.  \<open>current_channel\<close> is read only when two scores tie.
\<close>

fun highest_score_loop :: "dcs \<Rightarrow> nat list \<Rightarrow> nat option \<Rightarrow> error + nat option" where
  "highest_score_loop ctx [] best = Inr best"
| "highest_score_loop ctx (next # rest) best =
     (case best of
        None \<Rightarrow> highest_score_loop ctx rest (Some next)
      | Some b \<Rightarrow>
          if score ctx b < score ctx next then highest_score_loop ctx rest (Some next)
          else if score ctx next = score ctx b then
            (case current_channel ctx of
               None \<Rightarrow> Inl Null_deref
             | Some cur \<Rightarrow>
                 let diff_next = freq ctx cur - freq ctx next;
                     diff_best = freq ctx cur - freq ctx b
                 in if diff_best = 0 then highest_score_loop ctx rest (Some b)
                    else if sint (c_abs diff_best) < sint (c_abs diff_next) \<or> diff_next = 0
                    then highest_score_loop ctx rest (Some next)
                    else highest_score_loop ctx rest (Some b))
          else highest_score_loop ctx rest (Some b))"

definition dcs_algo_get_channel_with_highest_score :: "dcs \<Rightarrow> error + nat option" where
  "dcs_algo_get_channel_with_highest_score ctx = highest_score_loop ctx (scan_list ctx) None"

definition reset_one :: "u32 \<Rightarrow> nat \<Rightarrow> dcs \<Rightarrow> dcs" where
  "reset_one reset_val p ctx =
     set_metric ctx p ((metric (chan ctx p))\<lparr>accumulated_score := reset_val, n_samples := 0\<rparr>)"

definition dcs_algo_reset_accumulated_scores :: "dcs \<Rightarrow> u32 \<Rightarrow> dcs" where
  "dcs_algo_reset_accumulated_scores ctx reset_val = fold (reset_one reset_val) (scan_list ctx) ctx"

definition dcs_algo_calculate_threshold :: "u32 \<Rightarrow> u8 \<Rightarrow> u32" where
  "dcs_algo_calculate_threshold current_score threshold_percentage =
     (current_score * (100 + ucast threshold_percentage)) div 100"

definition inc_rounds_as_best :: "dcs \<Rightarrow> nat \<Rightarrow> dcs" where
  "inc_rounds_as_best ctx p =
     set_metric ctx p ((metric (chan ctx p))\<lparr>rounds_as_best := rounds_as_best (metric (chan ctx p)) + 1\<rparr>)"

section \<open>EWMA evaluation (algorithms/ewma.c)\<close>

text \<open>
  \<open>ewma_op_evaluate_channels\<close> returns the channel to switch to (or null) and leaves the
  context and the algorithm's own context updated.  The threshold is read through
  \<open>current_channel\<close>; the candidate is dereferenced by \<open>rounds_as_best++\<close> on every path.
\<close>

definition ewma_op_evaluate_channels ::
  "dcs \<Rightarrow> ewma_context \<Rightarrow> error + (nat option \<times> dcs \<times> ewma_context)" where
  "ewma_op_evaluate_channels ctx ewma =
     (case dcs_algo_get_channel_with_highest_score ctx of
        Inl e \<Rightarrow> Inl e
      | Inr candidate_chan \<Rightarrow>
          (case current_channel ctx of
             None \<Rightarrow> Inl Null_deref
           | Some cur \<Rightarrow>
               let threshold = dcs_algo_calculate_threshold (score ctx cur)
                                 (ewma_threshold_percentage ewma)
               in (case candidate_chan of
                     None \<Rightarrow> Inl Null_deref
                   | Some cand \<Rightarrow>
                       let ewma1 =
                             (if cand = cur then ewma\<lparr>rounds_with_a_better_channel := 0\<rparr>
                              else if threshold < score ctx cand
                              then ewma\<lparr>rounds_with_a_better_channel :=
                                          rounds_with_a_better_channel ewma + 1\<rparr>
                              else ewma);
                           ctx1 = inc_rounds_as_best ctx cand
                       in if rounds_for_csa ewma1 \<noteq> 0 \<and>
                             sint (rounds_for_csa ewma1) \<le> sint (rounds_with_a_better_channel ewma1)
                          then Inr (Some cand, ctx1, ewma1)
                          else Inr (None, ctx1, ewma1))))"

definition ewma_op_post_csa_hook :: "dcs \<Rightarrow> ewma_context \<Rightarrow> dcs \<times> ewma_context" where
  "ewma_op_post_csa_hook ctx ewma = (ctx, ewma\<lparr>rounds_with_a_better_channel := 0\<rparr>)"

section \<open>Sample and hold (algorithms/sample\_and\_hold.c)\<close>

record sample_and_hold =
  rounds_for_eval :: s32
  sh_threshold_percentage :: u8
  num_full_scans :: s32

text \<open>
  \<open>sample_hold_op_evaluate_channels\<close>.  The \<open>LOG_INFO\<close> call of the evaluation branch
  divides the best score by \<open>n_samples\<close> in \<open>uint32_t\<close>; its arguments are evaluated only
  when the log level is at least \<open>LOG_LEVEL_INFO\<close>.
\<close>

definition sample_hold_op_evaluate_channels ::
  "dcs \<Rightarrow> sample_and_hold \<Rightarrow> error + (nat option \<times> dcs \<times> sample_and_hold)" where
  "sample_hold_op_evaluate_channels ctx sh_ctx =
     (case dcs_algo_get_channel_with_highest_score ctx of
        Inl e \<Rightarrow> Inl e
      | Inr None \<Rightarrow> Inl Null_deref
      | Inr (Some best) \<Rightarrow>
          let ctx1 = inc_rounds_as_best ctx best;
              sh1 = sh_ctx\<lparr>num_full_scans := num_full_scans sh_ctx + 1\<rparr>
          in if c_div_traps (num_full_scans sh1) (rounds_for_eval sh1) then Inl Div_by_zero
             else if c_smod (num_full_scans sh1) (rounds_for_eval sh1) = 0 then
               (case current_channel ctx1 of
                  None \<Rightarrow> Inl Null_deref
                | Some cur \<Rightarrow>
                    let threshold = dcs_algo_calculate_threshold (score ctx1 cur)
                                      (sh_threshold_percentage sh1)
                    in if LOG_LEVEL_INFO \<le> log_level ctx1 \<and>
                          n_samples (metric (chan ctx1 best)) = 0
                       then Inl Div_by_zero
                       else if threshold < score ctx1 best then Inr (Some best, ctx1, sh1)
                       else Inr (None, dcs_algo_reset_accumulated_scores ctx1 0, sh1))
             else Inr (None, ctx1, sh1))"

definition sample_hold_op_process_measurement ::
  "dcs \<Rightarrow> channel_measurement \<Rightarrow> nat \<Rightarrow> dcs" where
  "sample_hold_op_process_measurement ctx meas channel =
     (let m = metric (chan ctx channel)
      in set_metric ctx channel
           (m\<lparr>accumulated_score := accumulated_score m + ucast (meas_metric meas),
              n_samples := n_samples m + 1\<rparr>))"

definition sample_hold_op_post_csa_hook :: "dcs \<Rightarrow> dcs" where
  "sample_hold_op_post_csa_hook ctx = dcs_algo_reset_accumulated_scores ctx 0"

text \<open>The operation table of the selected algorithm, with the algorithm's own context.\<close>

datatype algo = Ewma ewma_context | Sample_and_hold sample_and_hold

definition dcs_algo_ops_evaluate_channels ::
  "dcs \<Rightarrow> algo \<Rightarrow> error + (nat option \<times> dcs \<times> algo)" where
  "dcs_algo_ops_evaluate_channels ctx a =
     (case a of
        Ewma e \<Rightarrow>
          (case ewma_op_evaluate_channels ctx e of
             Inl err \<Rightarrow> Inl err
           | Inr (r, ctx1, e1) \<Rightarrow> Inr (r, ctx1, Ewma e1))
      | Sample_and_hold s \<Rightarrow>
          (case sample_hold_op_evaluate_channels ctx s of
             Inl err \<Rightarrow> Inl err
           | Inr (r, ctx1, s1) \<Rightarrow> Inr (r, ctx1, Sample_and_hold s1)))"

definition dcs_algo_ops_process_measurement ::
  "dcs \<Rightarrow> algo \<Rightarrow> channel_measurement \<Rightarrow> nat \<Rightarrow> dcs" where
  "dcs_algo_ops_process_measurement ctx a meas channel =
     (case a of
        Ewma e \<Rightarrow> ewma_op_process_measurement ctx e meas channel
      | Sample_and_hold s \<Rightarrow> sample_hold_op_process_measurement ctx meas channel)"

definition dcs_algo_ops_post_csa_hook :: "dcs \<Rightarrow> algo \<Rightarrow> dcs \<times> algo" where
  "dcs_algo_ops_post_csa_hook ctx a =
     (case a of
        Ewma e \<Rightarrow> (case ewma_op_post_csa_hook ctx e of (ctx1, e1) \<Rightarrow> (ctx1, Ewma e1))
      | Sample_and_hold s \<Rightarrow> (sample_hold_op_post_csa_hook ctx, a))"

section \<open>Channel switch (dcs.c)\<close>

definition MHZ_TO_KHZ :: "u32 \<Rightarrow> u32" where
  "MHZ_TO_KHZ f = f * 1000"

text \<open>
  \<open>calculate_new_prim_ch_center_freq\<close>.  \<open>bandwidth_mhz\<close> is promoted to \<open>int\<close>,
  \<open>prim_1mhz_idx\<close> is an \<open>int\<close>, and each sum is converted to \<open>uint32_t\<close>: the arithmetic
  is that of 32-bit words, with the truncating \<open>int\<close> division for \<open>prim_1mhz_idx / 2\<close>.
  A primary width other than 1 or 2 fails \<open>MMSM_ASSERT(false)\<close>; a result not below the top
  of the operating channel fails the final \<open>MMSM_ASSERT\<close>.
\<close>

definition calculate_new_prim_ch_center_freq :: "dcs \<Rightarrow> dcs_channel \<Rightarrow> error + u32" where
  "calculate_new_prim_ch_center_freq ctx channel =
     (let bottom_freq = frequency_khz (ch channel)
                          - MHZ_TO_KHZ (ucast (bandwidth_mhz (ch channel))) div 2;
          top_freq = frequency_khz (ch channel)
                          + MHZ_TO_KHZ (ucast (bandwidth_mhz (ch channel))) div 2;
          prim_1mhz_idx = current_prim_1mhz_ch_index ctx
      in if current_primary_ch_width ctx = 1 then
           (let prim_ch_center_khz = bottom_freq + MHZ_TO_KHZ prim_1mhz_idx + 500
            in if prim_ch_center_khz < top_freq then Inr prim_ch_center_khz
               else Inl Assert_failed)
         else if current_primary_ch_width ctx = 2 then
           (let prim_ch_center_khz = bottom_freq + MHZ_TO_KHZ (c_sdiv prim_1mhz_idx 2) * 2 + 1000
            in if prim_ch_center_khz < top_freq then Inr prim_ch_center_khz
               else Inl Assert_failed)
         else Inl Assert_failed)"

text \<open>\<open>calculate_sec_channel_offset\<close> returns an \<open>int8_t\<close>.\<close>

definition calculate_sec_channel_offset :: "dcs \<Rightarrow> dcs_channel \<Rightarrow> u8" where
  "calculate_sec_channel_offset ctx channel =
     (if bandwidth_mhz (ch channel) = 1 then 0
      else if current_prim_1mhz_ch_index ctx AND 1 = 0 then 1 else - 1)"

text \<open>
  The \<open>CHAN_SWITCH\<close> command that \<open>do_channel_switch\<close> formats with \<open>snprintf\<close>, as the
  values of its six conversions in order; the text itself is not modelled.
\<close>

record ecsa_cmd =
  cs_count :: s32
  prim_center_khz :: u32
  prim_bandwidth :: s32
  sec_channel_offset :: u8
  center_freq1 :: u32
  bandwidth :: u8

definition make_ecsa_cmd :: "dcs \<Rightarrow> dcs_channel \<Rightarrow> u32 \<Rightarrow> ecsa_cmd" where
  "make_ecsa_cmd ctx channel prim =
     \<lparr>cs_count = dtims_for_csa ctx, prim_center_khz = prim,
      prim_bandwidth = current_primary_ch_width ctx,
      sec_channel_offset = calculate_sec_channel_offset ctx channel,
      center_freq1 = frequency_khz (ch channel), bandwidth = bandwidth_mhz (ch channel)\<rparr>"

definition DCS_CHAN_SWITCH_GRACE_SECS :: s32 where
  "DCS_CHAN_SWITCH_GRACE_SECS = 5"

text \<open>\<open>TU_TO_SEC(beacon_interval * dtim_period * dtims_for_csa) + DCS_CHAN_SWITCH_GRACE_SECS\<close>,
  computed in \<open>int\<close> and stored in a \<open>uint32_t\<close>.\<close>

definition chan_switch_time :: "dcs \<Rightarrow> u32" where
  "chan_switch_time ctx =
     c_sdiv (ucast (beacon_interval ctx) * ucast (dtim_period ctx) * dtims_for_csa ctx * 1024)
            1000000
     + DCS_CHAN_SWITCH_GRACE_SECS"

datatype errno = ENODATA | EBADR | ETIMEDOUT | EPROTO

text \<open>
  What the surroundings contribute to one call of \<open>do_channel_switch\<close>: the tree that
  \<open>mmsm_request\<close> returns for the command (the empty chain for null), and the outcome of
  \<open>pthread_cond_timedwait\<close>: a timeout, or a wake-up after the notification callback has
  changed the context while the mutex was released.
\<close>

datatype cond_wait = Timed_out | Signalled "dcs \<Rightarrow> dcs"

record csa_env =
  csa_response :: "mmsm_data_item list"
  csa_wait :: cond_wait

text \<open>What a call does to its surroundings, in order.\<close>

datatype dcs_event = Ev_chan_switch_request ecsa_cmd | Ev_csa_cond_wait u32

text \<open>The code after the label \<open>exit\<close>.\<close>

definition csa_exit ::
  "errno option \<Rightarrow> dcs \<Rightarrow> dcs_event list \<Rightarrow> errno option \<times> dcs \<times> dcs_event list" where
  "csa_exit ret ctx evs = (ret, ctx\<lparr>csa_in_progress := False, csa_freq_5g := 0\<rparr>, evs)"

text \<open>
  \<open>do_channel_switch\<close>: the return value (\<open>None\<close> for 0, otherwise the negated errno), the
  context afterwards and the events.  The key of the first sibling is read as a string; on an
  integer key the union holds no string pointer.
\<close>

definition do_channel_switch ::
  "dcs \<Rightarrow> nat option \<Rightarrow> csa_env \<Rightarrow> error + (errno option \<times> dcs \<times> dcs_event list)" where
  "do_channel_switch ctx channel env =
     (case channel of
        None \<Rightarrow> Inl Assert_failed
      | Some p \<Rightarrow>
          if \<not> csa_enabled ctx then Inr (None, ctx, [])
          else
            (case calculate_new_prim_ch_center_freq ctx (chan ctx p) of
               Inl e \<Rightarrow> Inl e
             | Inr prim \<Rightarrow>
                 let ev1 = [Ev_chan_switch_request (make_ecsa_cmd ctx (chan ctx p) prim)]
                 in (case csa_response env of
                       [] \<Rightarrow> Inr (csa_exit (Some ENODATA) ctx ev1)
                     | result # _ \<Rightarrow>
                         (case mmsm_key result of
                            Key_U32 _ \<Rightarrow> Inl Read_out_of_bounds
                          | Key_String k \<Rightarrow>
                              if k \<noteq> ''OK'' then Inr (csa_exit (Some EBADR) ctx ev1)
                              else
                                let ctx1 = ctx\<lparr>csa_in_progress := True\<rparr>;
                                    ev2 = ev1 @ [Ev_csa_cond_wait (chan_switch_time ctx)]
                                in (case csa_wait env of
                                      Timed_out \<Rightarrow> Inr (csa_exit (Some ETIMEDOUT) ctx1 ev2)
                                    | Signalled callback \<Rightarrow>
                                        let ctx2 = callback ctx1
                                        in if csa_freq_5g ctx2 = current_5g_freq ctx2
                                           then Inr (csa_exit None ctx2 ev2)
                                           else Inr (csa_exit (Some EPROTO) ctx2 ev2))))))"

section \<open>Scan thread (dcs.c)\<close>

definition MAX_CHANNEL_MEASURE_RETRIES :: s32 where
  "MAX_CHANNEL_MEASURE_RETRIES = 3"

text \<open>The list macros of \<open>list.h\<close> on the scan list.\<close>

definition list_get_first_item :: "nat list \<Rightarrow> nat option" where
  "list_get_first_item xs = (case xs of [] \<Rightarrow> None | x # _ \<Rightarrow> Some x)"

definition list_get_next_item_or_null :: "nat list \<Rightarrow> nat \<Rightarrow> nat option" where
  "list_get_next_item_or_null xs c =
     (case dropWhile (\<lambda>x. x \<noteq> c) xs of _ # n # _ \<Rightarrow> Some n | _ \<Rightarrow> None)"

definition list_remove :: "dcs \<Rightarrow> nat \<Rightarrow> dcs" where
  "list_remove ctx c = ctx\<lparr>scan_list := removeAll c (scan_list ctx)\<rparr>"

text \<open>
  The state of \<open>measurement_schedule_thread_fn\<close> between two iterations of its loop, and
  what the surroundings contribute to one iteration: the result of
  \<open>get_channel_measurement\<close> (null when the measurement failed) and, should a switch be
  attempted, the surroundings of \<open>do_channel_switch\<close>.
\<close>

record thread_state =
  th_ctx :: dcs
  th_algo :: algo
  th_channel :: "nat option"
  th_attempt_count :: s32

record scan_env =
  env_meas :: "channel_measurement option"
  env_csa :: csa_env

text \<open>The block under \<open>if (channel == NULL)\<close>: evaluation, switch, hook, back to the head.\<close>

definition round_completed :: "dcs \<Rightarrow> algo \<Rightarrow> csa_env \<Rightarrow> error + (dcs \<times> algo)" where
  "round_completed ctx a env =
     (case dcs_algo_ops_evaluate_channels ctx a of
        Inl e \<Rightarrow> Inl e
      | Inr (candidate_chan, ctx1, a1) \<Rightarrow>
          if candidate_chan \<noteq> None \<and> candidate_chan \<noteq> current_channel ctx1 then
            (case do_channel_switch ctx1 candidate_chan env of
               Inl e \<Rightarrow> Inl e
             | Inr (ret, ctx2, evs) \<Rightarrow>
                 if ret = None then Inr (dcs_algo_ops_post_csa_hook ctx2 a1)
                 else Inr (ctx2, a1))
          else Inr (ctx1, a1))"

text \<open>
  One iteration of the \<open>while (1)\<close> loop.  \<open>get_channel_measurement\<close> dereferences
  \<open>channel\<close>; \<open>datalog_write_csv\<close> is passed \<open>context->current_channel->ch.channel_s1g\<close>.
\<close>

definition measurement_iteration :: "thread_state \<Rightarrow> scan_env \<Rightarrow> error + thread_state" where
  "measurement_iteration st env =
     (case th_channel st of
        None \<Rightarrow> Inl Null_deref
      | Some channel \<Rightarrow>
          (case (case env_meas env of
                   Some meas \<Rightarrow>
                     (case current_channel (th_ctx st) of
                        None \<Rightarrow> Inl Null_deref
                      | Some cur \<Rightarrow>
                          Inr (dcs_algo_ops_process_measurement (th_ctx st) (th_algo st) meas channel,
                               list_get_next_item_or_null (scan_list (th_ctx st)) channel,
                               0))
                 | None \<Rightarrow>
                     let attempt_count = th_attempt_count st + 1
                     in if sint MAX_CHANNEL_MEASURE_RETRIES \<le> sint attempt_count
                        then Inr (list_remove (th_ctx st) channel,
                                  list_get_next_item_or_null (scan_list (th_ctx st)) channel,
                                  0)
                        else Inr (th_ctx st, Some channel, attempt_count))
           of
             Inl e \<Rightarrow> Inl e
           | Inr (ctx1, channel1, attempt1) \<Rightarrow>
               if channel1 = None then
                 (case round_completed ctx1 (th_algo st) (env_csa env) of
                    Inl e \<Rightarrow> Inl e
                  | Inr (ctx2, a2) \<Rightarrow>
                      Inr \<lparr>th_ctx = ctx2, th_algo = a2,
                           th_channel = list_get_first_item (scan_list ctx2),
                           th_attempt_count = attempt1\<rparr>)
               else Inr \<lparr>th_ctx = ctx1, th_algo = th_algo st, th_channel = channel1,
                          th_attempt_count = attempt1\<rparr>))"

fun run_iterations :: "thread_state \<Rightarrow> scan_env list \<Rightarrow> error + thread_state" where
  "run_iterations st [] = Inr st"
| "run_iterations st (env # envs) =
     (case measurement_iteration st env of
        Inl e \<Rightarrow> Inl e
      | Inr st1 \<Rightarrow> run_iterations st1 envs)"

section \<open>Replay source (dcs\_test.c)\<close>

text \<open>
  \<open>struct channel_measurement_list_per_ch\<close>: the channel and the list of its samples, in
  order.  \<open>per_ch_sample_list\<close> is the list of these entries.
\<close>

record channel_measurement_list_per_ch =
  pc_ch :: morse_cmd_channel_info
  channel_sample_list :: "channel_measurement list"

text \<open>\<open>add_channel_measurement_item\<close>: append to the list of the sample's frequency, or open
  a new list at the tail.\<close>

fun add_channel_measurement_item ::
  "channel_measurement_list_per_ch list \<Rightarrow> channel_measurement \<Rightarrow> morse_cmd_channel_info
     \<Rightarrow> channel_measurement_list_per_ch list" where
  "add_channel_measurement_item [] item c = [\<lparr>pc_ch = c, channel_sample_list = [item]\<rparr>]"
| "add_channel_measurement_item (per_freq # rest) item c =
     (if frequency_khz (pc_ch per_freq) = frequency_khz c
      then per_freq\<lparr>channel_sample_list := channel_sample_list per_freq @ [item]\<rparr> # rest
      else per_freq # add_channel_measurement_item rest item c)"

text \<open>
  The \<open>list_for_each_entry\<close> loop of \<open>pop_channel_measurement\<close>: the measurement popped
  (null when no entry has the frequency) and the list afterwards.  On an entry without
  samples \<open>list_get_first_item\<close> is null and \<open>list_remove\<close> dereferences it.
\<close>

fun pop_loop ::
  "channel_measurement_list_per_ch list \<Rightarrow> u32
     \<Rightarrow> error + (channel_measurement option \<times> channel_measurement_list_per_ch list)" where
  "pop_loop [] freq_khz = Inr (None, [])"
| "pop_loop (per_ch # rest) freq_khz =
     (if frequency_khz (pc_ch per_ch) = freq_khz then
        (case channel_sample_list per_ch of
           [] \<Rightarrow> Inl Null_deref
         | sample # samples \<Rightarrow>
             Inr (Some sample,
                  if samples = [] then rest
                  else per_ch\<lparr>channel_sample_list := samples\<rparr> # rest))
      else
        (case pop_loop rest freq_khz of
           Inl e \<Rightarrow> Inl e
         | Inr (meas, rest1) \<Rightarrow> Inr (meas, per_ch # rest1)))"

text \<open>\<open>pop_channel_measurement\<close>: the measurement, the list afterwards, and whether
  \<open>mmsm_halt\<close> was called.\<close>

definition pop_channel_measurement ::
  "channel_measurement_list_per_ch list \<Rightarrow> u32
     \<Rightarrow> error + (channel_measurement option \<times> channel_measurement_list_per_ch list \<times> bool)" where
  "pop_channel_measurement per_ch_list freq_khz =
     (case pop_loop per_ch_list freq_khz of
        Inl e \<Rightarrow> Inl e
      | Inr (meas, per_ch_list1) \<Rightarrow> Inr (meas, per_ch_list1, per_ch_list1 = []))"

text \<open>Successive measurement requests, each answered by \<open>pop_channel_measurement\<close>: for every
  request the measurement returned and whether it signalled the halt.\<close>

fun replay_requests ::
  "channel_measurement_list_per_ch list \<Rightarrow> u32 list
     \<Rightarrow> error + ((channel_measurement option \<times> bool) list)" where
  "replay_requests per_ch_list [] = Inr []"
| "replay_requests per_ch_list (freq_khz # freqs) =
     (case pop_channel_measurement per_ch_list freq_khz of
        Inl e \<Rightarrow> Inl e
      | Inr (meas, per_ch_list1, halted) \<Rightarrow>
          (case replay_requests per_ch_list1 freqs of
             Inl e \<Rightarrow> Inl e
           | Inr outs \<Rightarrow> Inr ((meas, halted) # outs)))"

text \<open>The number of measurements the replay source holds.\<close>

definition total_samples :: "channel_measurement_list_per_ch list \<Rightarrow> nat" where
  "total_samples per_ch_list = length (concat (map channel_sample_list per_ch_list))"

section \<open>AP-ctrl response parser (backend/hostapd\_ctrl.c)\<close>

text \<open>
  \<open>strtok_r\<close> on the C string \<open>s\<close> (the characters before its terminating NUL): skip leading
  delimiters; if nothing is left there is no token; otherwise the token runs up to the next
  delimiter or the end.  The result is the token and what \<open>save_ptr\<close> then points to: the
  characters after the delimiter that ended the token (which has been overwritten with NUL),
  or \<open>None\<close> when the token ran to the end of the string.
\<close>

definition strtok_r :: "string \<Rightarrow> string \<Rightarrow> (string \<times> string option) option" where
  "strtok_r s delim =
     (let s1 = dropWhile (\<lambda>c. c \<in> set delim) s
      in if s1 = [] then None
         else Some (takeWhile (\<lambda>c. c \<notin> set delim) s1,
                    case dropWhile (\<lambda>c. c \<notin> set delim) s1 of
                      [] \<Rightarrow> None
                    | _ # rest \<Rightarrow> Some rest))"

text \<open>The string a later call \<open>strtok_r(NULL, \<dots>, &save_ptr)\<close> continues with.\<close>

definition save_ptr_string :: "string option \<Rightarrow> string" where
  "save_ptr_string save = (case save of None \<Rightarrow> [] | Some rest \<Rightarrow> rest)"

text \<open>
  The tag-stripping block of \<open>parse_item\<close>: if the token starts with \<open><\<close>, the pointer
  is advanced to the first \<open>>\<close> and one past it, without regard to the token's end.
  \<open>mem\<close> is the memory from the start of the token on, with the NULs that \<open>strtok_r\<close>
  has written; the result is the C string the pointer then points to.  A scan that finds no
  \<open>>\<close> in \<open>mem\<close> leaves the buffer.
\<close>

definition skip_tag :: "string \<Rightarrow> string \<Rightarrow> error + string" where
  "skip_tag token mem =
     (if hd token = CHR ''<''
      then (if CHR ''>'' \<in> set mem
            then Inr (takeWhile (\<lambda>c. c \<noteq> NUL) (tl (dropWhile (\<lambda>c. c \<noteq> CHR ''>'') mem)))
            else Inl Read_out_of_bounds)
      else Inr token)"

text \<open>
  \<open>parse_item\<close>.  \<open>mem_after\<close> holds the bytes of the buffer behind the NUL that ends
  \<open>line\<close>.  The result is \<open>None\<close> for the return value 1 and the item for 0.
\<close>

definition parse_item ::
  "string \<Rightarrow> string \<Rightarrow> mmsm_data_item \<Rightarrow> error + mmsm_data_item option" where
  "parse_item line mem_after item =
     (case strtok_r line ''= '' of
        None \<Rightarrow> Inr None
      | Some (token, save) \<Rightarrow>
          (case skip_tag token
                  (token @ [NUL] @ (case save of None \<Rightarrow> [] | Some rest \<Rightarrow> rest @ [NUL])
                     @ mem_after) of
             Inl e \<Rightarrow> Inl e
           | Inr key \<Rightarrow>
               let item1 = mmsm_data_item_set_key_str item key
               in (case strtok_r (save_ptr_string save) ''='' of
                     None \<Rightarrow> Inr (Some item1)
                   | Some (token2, save2) \<Rightarrow>
                       Inr (Some (mmsm_data_item_set_val_string item1 token2)))))"

text \<open>
  The loop of \<open>parse_output\<close> over the tokens that \<open>strtok_r(\<dots>, "\n", \<dots>)\<close> yields:
  \<open>None\<close> when \<open>parse_item\<close> fails on a line (the chain is freed and null returned),
  otherwise the chain of items.  When a line was ended by a newline, what follows it in the
  buffer is the rest of the text and the buffer's terminating NUL.
\<close>

function parse_output_loop :: "string \<Rightarrow> error + mmsm_data_item list option" where
  "parse_output_loop s =
     (case strtok_r s [CHR 0x0A] of
        None \<Rightarrow> Inr (Some [])
      | Some (token, save) \<Rightarrow>
          (case parse_item token (case save of None \<Rightarrow> [] | Some rest \<Rightarrow> rest @ [NUL])
                  mmsm_data_item_alloc of
             Inl e \<Rightarrow> Inl e
           | Inr None \<Rightarrow> Inr None
           | Inr (Some item) \<Rightarrow>
               (case parse_output_loop (save_ptr_string save) of
                  Inl e \<Rightarrow> Inl e
                | Inr None \<Rightarrow> Inr None
                | Inr (Some items) \<Rightarrow> Inr (Some (item # items)))))"
  by pat_completeness auto
termination
proof (relation "measure length")
  show "wf (measure length)" by simp
next
  fix s :: string and x2 token save
  assume "strtok_r s [CHR 0x0A] = Some x2" and "(token, save) = x2"
  then have tok: "strtok_r s [CHR 0x0A] = Some (token, save)" by simp
  let ?s1 = "dropWhile (\<lambda>c. c \<in> set [CHR 0x0A]) s"
  let ?s2 = "dropWhile (\<lambda>c. c \<notin> set [CHR 0x0A]) ?s1"
  have ne: "?s1 \<noteq> []"
    using tok by (auto simp: strtok_r_def Let_def split: if_splits)
  have sv: "save = (case ?s2 of [] \<Rightarrow> None | _ # rest \<Rightarrow> Some rest)"
    using tok by (auto simp: strtok_r_def Let_def split: if_splits)
  have l1: "length ?s1 \<le> length s" by (rule length_dropWhile_le)
  have l2: "length ?s2 \<le> length ?s1" by (rule length_dropWhile_le)
  have "length (save_ptr_string save) < length ?s1"
  proof (cases ?s2)
    case Nil
    have "save = None" using sv unfolding Nil by simp
    moreover have "0 < length ?s1" using ne by (rule length_greater_0_conv [THEN iffD2])
    ultimately show ?thesis by (simp only: save_ptr_string_def option.case list.size)
  next
    case (Cons c rest)
    have "save = Some rest" using sv unfolding Cons by simp
    moreover have "length (c # rest) \<le> length ?s1" using l2 unfolding Cons .
    ultimately show ?thesis by (simp add: save_ptr_string_def del: dropWhile_eq_Nil_conv)
  qed
  then have "length (save_ptr_string save) < length s" using l1 by (rule less_le_trans)
  then show "(save_ptr_string save, s) \<in> measure length" by simp
qed

declare parse_output_loop.simps [simp del]

text \<open>\<open>parse_output\<close> on the NUL-terminated text \<open>buf\<close>; the null pointer is the empty chain.\<close>

definition parse_output :: "string \<Rightarrow> error + mmsm_data_item list" where
  "parse_output buf =
     (case parse_output_loop buf of
        Inl e \<Rightarrow> Inl e
      | Inr None \<Rightarrow> Inr []
      | Inr (Some items) \<Rightarrow> Inr items)"

section \<open>Search helpers (engine/helpers.c)\<close>

fun mmsm_find_value_by_key :: "mmsm_data_item list \<Rightarrow> string \<Rightarrow> string option" where
  "mmsm_find_value_by_key [] key = None"
| "mmsm_find_value_by_key (head # rest) key =
     (if mmsm_key head = Key_String key then mmsm_value head
      else mmsm_find_value_by_key rest key)"

text \<open>\<open>strstr\<close> on C strings, as the test whether its result is not null.\<close>

fun strstr :: "string \<Rightarrow> string \<Rightarrow> bool" where
  "strstr [] needle = (needle = [])"
| "strstr (c # cs) needle = (prefix needle (c # cs) \<or> strstr cs needle)"

text \<open>
  \<open>mmsm_is_flag_set_in\<close>.  \<open>wrapped_flag\<close> has 1024 bytes: the closing bracket and the
  terminator are written at \<open>strlen(flag) + 1\<close> and \<open>strlen(flag) + 2\<close>, which lies inside
  the array for flags of at most 1021 characters.  The value found is passed to \<open>strstr\<close>
  unchecked.
\<close>

definition mmsm_is_flag_set_in :: "mmsm_data_item list \<Rightarrow> string \<Rightarrow> string \<Rightarrow> error + bool" where
  "mmsm_is_flag_set_in result key flag =
     (if 1021 < length flag then Inl Write_out_of_bounds
      else
        (case mmsm_find_value_by_key result key of
           None \<Rightarrow> Inl Null_deref
         | Some buf \<Rightarrow>
             (case c_string buf of
                Inl e \<Rightarrow> Inl e
              | Inr v \<Rightarrow> Inr (strstr v (''['' @ flag @ '']'')))))"

section \<open>Response lines, as the specification describes them\<close>

text \<open>
  The specification's view of a response text, for comparison with the parser.  The text is
  split on newline, \<open>lines_of\<close>, and \<open>response_lines\<close> are the lines that are not empty.
\<close>

fun lines_of :: "string \<Rightarrow> string list" where
  "lines_of [] = [[]]"
| "lines_of (c # cs) =
     (if c = CHR 0x0A then [] # lines_of cs
      else (case lines_of cs of [] \<Rightarrow> [[c]] | l # ls \<Rightarrow> (c # l) # ls))"

definition response_lines :: "string \<Rightarrow> string list" where
  "response_lines text = filter (\<lambda>l. l \<noteq> []) (lines_of text)"

text \<open>The first run of characters with the property \<open>P\<close> in \<open>s\<close>, and what follows it.\<close>

definition first_run :: "(char \<Rightarrow> bool) \<Rightarrow> string \<Rightarrow> string" where
  "first_run P s = takeWhile P (dropWhile (\<lambda>c. \<not> P c) s)"

definition after_first_run :: "(char \<Rightarrow> bool) \<Rightarrow> string \<Rightarrow> string" where
  "after_first_run P s = dropWhile P (dropWhile (\<lambda>c. \<not> P c) s)"

text \<open>
  In a line, the key token is the first run of characters other than \<open>=\<close> and space; one
  character ends it, and the value is the first run of characters other than \<open>=\<close> behind
  that character.  A key token that starts with \<open><\<close> carries a tag, which ends with its
  first \<open>>\<close>; \<open>line_tag_closed\<close> says that such a token does hold a \<open>>\<close>.  \<open>line_item\<close>
  is the item a line stands for: the key without its tag, and the value if it is not empty.
\<close>

definition is_key_char :: "char \<Rightarrow> bool" where
  "is_key_char c = (c \<noteq> CHR ''='' \<and> c \<noteq> CHR '' '')"

definition line_key_token :: "string \<Rightarrow> string" where
  "line_key_token line = first_run is_key_char line"

definition line_value :: "string \<Rightarrow> string" where
  "line_value line =
     first_run (\<lambda>c. c \<noteq> CHR ''='') (drop 1 (after_first_run is_key_char line))"

definition strip_tag :: "string \<Rightarrow> string" where
  "strip_tag token =
     (if token \<noteq> [] \<and> hd token = CHR ''<''
      then drop 1 (dropWhile (\<lambda>c. c \<noteq> CHR ''>'') token)
      else token)"

definition line_tag_closed :: "string \<Rightarrow> bool" where
  "line_tag_closed line =
     (line_key_token line = [] \<or> hd (line_key_token line) \<noteq> CHR ''<'' \<or>
      CHR ''>'' \<in> set (line_key_token line))"

definition line_item :: "string \<Rightarrow> mmsm_data_item" where
  "line_item line =
     Data_item (Key_String (strip_tag (line_key_token line)))
       (if line_value line = [] then None else Some (line_value line @ [NUL])) []"

text \<open>
  A line in the form the specification names: an optional tag \<open><N>\<close>, a key and an
  optional value, written \<open><N>KEY=VALUE\<close>, standing for the item with that string key
  and, if there is a value, that string value.  \<open>kv_line_ok\<close> delimits these lines: tag,
  key and value contain neither \<open>=\<close> nor a newline nor NUL; tag and key contain no space,
  the tag no \<open>>\<close>; an untagged key is not empty and does not start with \<open><\<close>; a value is
  not empty.  \<open>kv_token\<close> is the tag and key of a line.
\<close>

type_synonym kv_line = "string option \<times> string \<times> string option"

definition kv_token :: "string option \<Rightarrow> string \<Rightarrow> string" where
  "kv_token tag key = (case tag of None \<Rightarrow> [] | Some n \<Rightarrow> ''<'' @ n @ ''>'') @ key"

definition kv_line_text :: "kv_line \<Rightarrow> string" where
  "kv_line_text l =
     (case l of (tag, key, val) \<Rightarrow>
        (case tag of None \<Rightarrow> [] | Some n \<Rightarrow> ''<'' @ n @ ''>'') @ key @
        (case val of None \<Rightarrow> [] | Some v \<Rightarrow> ''='' @ v))"

definition kv_line_item :: "kv_line \<Rightarrow> mmsm_data_item" where
  "kv_line_item l =
     (case l of (tag, key, val) \<Rightarrow>
        Data_item (Key_String key) (map_option (\<lambda>v. v @ [NUL]) val) [])"

definition kv_line_ok :: "kv_line \<Rightarrow> bool" where
  "kv_line_ok l =
     (case l of (tag, key, val) \<Rightarrow>
        CHR ''='' \<notin> set key \<and> CHR '' '' \<notin> set key \<and> CHR 0x0A \<notin> set key \<and> NUL \<notin> set key \<and>
        (case tag of
           None \<Rightarrow> key \<noteq> [] \<and> hd key \<noteq> CHR ''<''
         | Some n \<Rightarrow> CHR ''>'' \<notin> set n \<and> CHR ''='' \<notin> set n \<and> CHR '' '' \<notin> set n \<and>
                     CHR 0x0A \<notin> set n \<and> NUL \<notin> set n) \<and>
        (case val of
           None \<Rightarrow> True
         | Some v \<Rightarrow> v \<noteq> [] \<and> CHR ''='' \<notin> set v \<and> CHR 0x0A \<notin> set v \<and>
                     NUL \<notin> set v))"

section \<open>Generic-netlink argument processing (backend/nl80211.c)\<close>

text \<open>
  The variable arguments of \<open>mmsm_request\<close>, in order.  An argument is an \<open>int\<close>-sized
  integer or a pointer, given by the memory it points to.  \<open>va_arg\<close> with a type that does
  not match the argument passed, or past the last argument, is undefined in C and is the
  failure \<open>Bad_va_arg\<close>.
\<close>

datatype va_item = VA_int s32 | VA_ptr string

text \<open>The attribute type tags of libnl's \<open>netlink/attr.h\<close>, which the sources include;
  only their being distinct matters below.\<close>

definition NLA_U8 :: s32 where "NLA_U8 = 1"
definition NLA_U16 :: s32 where "NLA_U16 = 2"
definition NLA_U32 :: s32 where "NLA_U32 = 3"
definition NLA_U64 :: s32 where "NLA_U64 = 4"
definition NLA_STRING :: s32 where "NLA_STRING = 5"
definition NLA_FLAG :: s32 where "NLA_FLAG = 6"
definition NLA_BINARY :: s32 where "NLA_BINARY = 11"

text \<open>
  The \<open>n\<close> bytes that \<open>memcpy\<close> copies from an integer of that size holding the value
  \<open>k\<close> (two's complement); the host is taken to be little-endian.
\<close>

definition host_bytes :: "nat \<Rightarrow> int \<Rightarrow> string" where
  "host_bytes n k = map (\<lambda>i. char_of (drop_bit (8 * i) k)) [0..<n]"

text \<open>\<open>PACK_VA_ARG(dest, type)\<close>: \<open>(type)va_arg(args, int)\<close> stored in \<open>sizeof(type)\<close>
  bytes.\<close>

definition PACK_VA_ARG :: "mmsm_data_item \<Rightarrow> nat \<Rightarrow> s32 \<Rightarrow> mmsm_data_item" where
  "PACK_VA_ARG dest size_of_type arg =
     Data_item (mmsm_key dest) (Some (host_bytes size_of_type (sint arg))) (mmsm_sub_values dest)"

text \<open>Prepending a node to the rest of the chain, if the rest was built.\<close>

definition chain_item ::
  "mmsm_data_item \<Rightarrow> error + mmsm_data_item list option \<Rightarrow> error + mmsm_data_item list option" where
  "chain_item item rest =
     (case rest of
        Inl e \<Rightarrow> Inl e
      | Inr None \<Rightarrow> Inr None
      | Inr (Some items) \<Rightarrow> Inr (Some (item # items)))"

text \<open>
  The \<open>while (attr_id != -1)\<close> loop of \<open>backend_nl80211_process_request_args\<close>, from the
  read of \<open>attr_id\<close> on: the attribute nodes, or \<open>None\<close> where the function frees the tree
  and returns null.  \<open>NLA_FLAG\<close> shares the \<open>default\<close> branch.  For \<open>NLA_BINARY\<close> the
  length is read first and that many bytes are copied from the pointer.
\<close>

fun process_attrs :: "va_item list \<Rightarrow> error + mmsm_data_item list option" where
  "process_attrs (VA_int attr_id # VA_int type # args) =
     (if attr_id = - 1 then Inr (Some [])
      else
        let cur = mmsm_data_item_set_key_u32 mmsm_data_item_alloc attr_id
        in if type = NLA_U8 then
             (case args of
                VA_int x # rest \<Rightarrow> chain_item (PACK_VA_ARG cur 1 x) (process_attrs rest)
              | _ \<Rightarrow> Inl Bad_va_arg)
           else if type = NLA_U16 then
             (case args of
                VA_int x # rest \<Rightarrow> chain_item (PACK_VA_ARG cur 2 x) (process_attrs rest)
              | _ \<Rightarrow> Inl Bad_va_arg)
           else if type = NLA_U32 then
             (case args of
                VA_int x # rest \<Rightarrow> chain_item (PACK_VA_ARG cur 4 x) (process_attrs rest)
              | _ \<Rightarrow> Inl Bad_va_arg)
           else if type = NLA_U64 then
             (case args of
                VA_int x # rest \<Rightarrow> chain_item (PACK_VA_ARG cur 8 x) (process_attrs rest)
              | _ \<Rightarrow> Inl Bad_va_arg)
           else if type = NLA_STRING then
             (case args of
                VA_ptr mem # rest \<Rightarrow>
                  (case c_string mem of
                     Inl e \<Rightarrow> Inl e
                   | Inr str \<Rightarrow>
                       chain_item (mmsm_data_item_set_val_string cur str) (process_attrs rest))
              | _ \<Rightarrow> Inl Bad_va_arg)
           else if type = NLA_BINARY then
             (case args of
                VA_int len # VA_ptr mem # rest \<Rightarrow>
                  if length mem < unat len then Inl Read_out_of_bounds
                  else chain_item
                         (Data_item (mmsm_key cur) (Some (take (unat len) mem)) (mmsm_sub_values cur))
                         (process_attrs rest)
              | _ \<Rightarrow> Inl Bad_va_arg)
           else Inr None)"
| "process_attrs [VA_int attr_id] = (if attr_id = - 1 then Inr (Some []) else Inl Bad_va_arg)"
| "process_attrs (VA_int attr_id # VA_ptr mem # args) =
     (if attr_id = - 1 then Inr (Some []) else Inl Bad_va_arg)"
| "process_attrs _ = Inl Bad_va_arg"

text \<open>\<open>backend_nl80211_process_request_args\<close>; the null pointer is the empty chain.\<close>

definition backend_nl80211_process_request_args :: "va_item list \<Rightarrow> error + mmsm_data_item list" where
  "backend_nl80211_process_request_args args =
     (case args of
        VA_int cmd # VA_int flags # rest \<Rightarrow>
          (case process_attrs rest of
             Inl e \<Rightarrow> Inl e
           | Inr None \<Rightarrow> Inr []
           | Inr (Some items) \<Rightarrow>
               Inr (PACK_VA_ARG (mmsm_data_item_set_key_u32 mmsm_data_item_alloc cmd) 2 flags
                      # items))
      | _ \<Rightarrow> Inl Bad_va_arg)"

section \<open>Argument vectors, as the specification describes them\<close>

text \<open>
  The specification's schema
  \<open><command-id> <flags> ( <attr-id> <type tag> <value\<dots>> )* <-1>\<close>: an attribute is its id
  and a tagged value; \<open>Attr_other\<close> stands for any further tag, which the schema gives no
  value.  \<open>attr_args\<close> writes an attribute as arguments, \<open>attr_node\<close> is the node it stands
  for, and \<open>attr_ok\<close> says that the arguments are what the tag announces: the id is not the
  sentinel, a string holds no NUL, a binary value has at least the announced length.
\<close>

datatype nl_attr_value =
    Attr_U8 s32 | Attr_U16 s32 | Attr_U32 s32 | Attr_U64 s32
  | Attr_string string | Attr_binary s32 string | Attr_other s32

type_synonym nl_attr = "s32 \<times> nl_attr_value"

definition attr_args :: "nl_attr \<Rightarrow> va_item list" where
  "attr_args a =
     (case a of (attr_id, v) \<Rightarrow>
        VA_int attr_id #
        (case v of
           Attr_U8 x \<Rightarrow> [VA_int NLA_U8, VA_int x]
         | Attr_U16 x \<Rightarrow> [VA_int NLA_U16, VA_int x]
         | Attr_U32 x \<Rightarrow> [VA_int NLA_U32, VA_int x]
         | Attr_U64 x \<Rightarrow> [VA_int NLA_U64, VA_int x]
         | Attr_string s \<Rightarrow> [VA_int NLA_STRING, VA_ptr (s @ [NUL])]
         | Attr_binary len mem \<Rightarrow> [VA_int NLA_BINARY, VA_int len, VA_ptr mem]
         | Attr_other tag \<Rightarrow> [VA_int tag]))"

definition request_args :: "s32 \<Rightarrow> s32 \<Rightarrow> nl_attr list \<Rightarrow> va_item list" where
  "request_args cmd flags attrs =
     VA_int cmd # VA_int flags # concat (map attr_args attrs) @ [VA_int (- 1)]"

definition attr_node :: "nl_attr \<Rightarrow> mmsm_data_item" where
  "attr_node a =
     (case a of (attr_id, v) \<Rightarrow>
        Data_item (Key_U32 attr_id)
          (Some (case v of
                   Attr_U8 x \<Rightarrow> host_bytes 1 (sint x)
                 | Attr_U16 x \<Rightarrow> host_bytes 2 (sint x)
                 | Attr_U32 x \<Rightarrow> host_bytes 4 (sint x)
                 | Attr_U64 x \<Rightarrow> host_bytes 8 (sint x)
                 | Attr_string s \<Rightarrow> s @ [NUL]
                 | Attr_binary len mem \<Rightarrow> take (unat len) mem
                 | Attr_other tag \<Rightarrow> []))
          [])"

definition attr_supported :: "nl_attr \<Rightarrow> bool" where
  "attr_supported a = (case snd a of Attr_other tag \<Rightarrow> False | _ \<Rightarrow> True)"

definition attr_ok :: "nl_attr \<Rightarrow> bool" where
  "attr_ok a =
     (case a of (attr_id, v) \<Rightarrow>
        attr_id \<noteq> - 1 \<and>
        (case v of
           Attr_string s \<Rightarrow> NUL \<notin> set s
         | Attr_binary len mem \<Rightarrow> unat len \<le> length mem
         | Attr_other tag \<Rightarrow>
             tag \<notin> {NLA_U8, NLA_U16, NLA_U32, NLA_U64, NLA_STRING, NLA_BINARY}
         | _ \<Rightarrow> True))"

section \<open>Concrete scenarios\<close>

text \<open>Scenario S2 of the specification: one channel at score 100, \<open>ewma_alpha = 20\<close>,
  a measurement with metric 50.\<close>

definition ctx_S2 :: dcs where
  "ctx_S2 = \<lparr>all_channels =
       [\<lparr>ch = \<lparr>frequency_khz = 920000, bandwidth_mhz = 1, channel_s1g = 37\<rparr>,
         metric = \<lparr>accumulated_score = 100, n_samples = 0, rounds_as_best = 0\<rparr>\<rparr>],
     current_channel = Some 0, current_primary_ch_width = 1, current_prim_1mhz_ch_index = 0,
     current_5g_freq = 5180, dtim_period = 1, beacon_interval = 100, scan_list = [0],
     csa_in_progress = False, csa_freq_5g = 0, dtims_for_csa = 5, csa_enabled = True,
     log_level = 3\<rparr>"

definition ewma_S2 :: ewma_context where
  "ewma_S2 = \<lparr>ewma_alpha = 20, ewma_threshold_percentage = 10, rounds_for_csa = 3,
     rounds_with_a_better_channel = 0\<rparr>"

definition meas_S2 :: channel_measurement where
  "meas_S2 = \<lparr>meas_metric = 50, noise = 0, time_listen_us = 0, time_rx_us = 0\<rparr>"

text \<open>Three channels; the current one (index 0) scores 5, the other two tie at 9 and lie
  5 MHz and 7 MHz away from it.\<close>

definition ctx_tie :: dcs where
  "ctx_tie = \<lparr>all_channels =
       [\<lparr>ch = \<lparr>frequency_khz = 920000, bandwidth_mhz = 1, channel_s1g = 37\<rparr>,
         metric = \<lparr>accumulated_score = 5, n_samples = 1, rounds_as_best = 0\<rparr>\<rparr>,
        \<lparr>ch = \<lparr>frequency_khz = 915000, bandwidth_mhz = 1, channel_s1g = 27\<rparr>,
         metric = \<lparr>accumulated_score = 9, n_samples = 1, rounds_as_best = 0\<rparr>\<rparr>,
        \<lparr>ch = \<lparr>frequency_khz = 927000, bandwidth_mhz = 1, channel_s1g = 51\<rparr>,
         metric = \<lparr>accumulated_score = 9, n_samples = 1, rounds_as_best = 0\<rparr>\<rparr>],
     current_channel = Some 0, current_primary_ch_width = 1, current_prim_1mhz_ch_index = 0,
     current_5g_freq = 5180, dtim_period = 1, beacon_interval = 100, scan_list = [0, 1, 2],
     csa_in_progress = False, csa_freq_5g = 0, dtims_for_csa = 5, csa_enabled = True,
     log_level = 3\<rparr>"


definition sh_S3 :: sample_and_hold where
  "sh_S3 = \<lparr>rounds_for_eval = 3, sh_threshold_percentage = 10, num_full_scans = 2\<rparr>"

text \<open>Scenario S4 of the specification: operating channel at 9200000 kHz, 4 MHz wide,
  primary width 2 MHz, primary 1 MHz index 2; the AP daemon answers \<open>OK\<close> and no
  notification arrives.\<close>

definition ctx_S4 :: dcs where
  "ctx_S4 = \<lparr>all_channels =
       [\<lparr>ch = \<lparr>frequency_khz = 9200000, bandwidth_mhz = 4, channel_s1g = 40\<rparr>,
         metric = \<lparr>accumulated_score = 0, n_samples = 0, rounds_as_best = 0\<rparr>\<rparr>],
     current_channel = Some 0, current_primary_ch_width = 2, current_prim_1mhz_ch_index = 2,
     current_5g_freq = 5180, dtim_period = 2, beacon_interval = 100, scan_list = [0],
     csa_in_progress = False, csa_freq_5g = 0, dtims_for_csa = 5, csa_enabled = True,
     log_level = 3\<rparr>"

definition env_S4 :: csa_env where
  "env_S4 = \<lparr>csa_response = [Data_item (Key_String ''OK'') None []], csa_wait = Timed_out\<rparr>"

text \<open>The AP daemon answers \<open>FAIL\<close>; a notification would arrive were it waited for.\<close>

definition env_fail :: csa_env where
  "env_fail = \<lparr>csa_response = [Data_item (Key_String ''FAIL'') None []],
     csa_wait = Signalled (\<lambda>c. c\<lparr>csa_freq_5g := 5200, current_5g_freq := 5200\<rparr>)\<rparr>"

text \<open>Channel switching disabled by configuration, after an unsolicited switch notification
  has left its frequency in \<open>csa.freq_5g\<close>.\<close>

definition ctx_csa_off :: dcs where
  "ctx_csa_off = ctx_S4\<lparr>csa_enabled := False, csa_freq_5g := 5180\<rparr>"

text \<open>A scan thread whose scan list holds one channel, and a failed measurement.\<close>

definition env_meas_failed :: scan_env where
  "env_meas_failed = \<lparr>env_meas = None, env_csa = env_S4\<rparr>"

definition thread_one_channel :: thread_state where
  "thread_one_channel =
     \<lparr>th_ctx = ctx_S2, th_algo = Ewma ewma_S2, th_channel = Some 0, th_attempt_count = 0\<rparr>"

text \<open>Replay sources: one measurement on one frequency; three measurements on two
  frequencies.\<close>

definition meas_a :: channel_measurement where
  "meas_a = \<lparr>meas_metric = 10, noise = 0, time_listen_us = 0, time_rx_us = 0\<rparr>"

definition meas_b :: channel_measurement where
  "meas_b = \<lparr>meas_metric = 20, noise = 0, time_listen_us = 0, time_rx_us = 0\<rparr>"

definition meas_c :: channel_measurement where
  "meas_c = \<lparr>meas_metric = 30, noise = 0, time_listen_us = 0, time_rx_us = 0\<rparr>"

definition replay_one :: "channel_measurement_list_per_ch list" where
  "replay_one =
     [\<lparr>pc_ch = \<lparr>frequency_khz = 920000, bandwidth_mhz = 1, channel_s1g = 37\<rparr>,
       channel_sample_list = [meas_a]\<rparr>]"

definition replay_two :: "channel_measurement_list_per_ch list" where
  "replay_two =
     [\<lparr>pc_ch = \<lparr>frequency_khz = 920000, bandwidth_mhz = 1, channel_s1g = 37\<rparr>,
       channel_sample_list = [meas_a, meas_b]\<rparr>,
      \<lparr>pc_ch = \<lparr>frequency_khz = 922000, bandwidth_mhz = 1, channel_s1g = 41\<rparr>,
       channel_sample_list = [meas_c]\<rparr>]"

text \<open>Scenario S1 of the specification: the response text and its three lines.\<close>

definition text_S1 :: string where
  "text_S1 = ''bssid=02:00:00:00:00:00'' @ [CHR 0x0A] @ ''freq=2412'' @ [CHR 0x0A] @
             ''flags=[AUTH][ASSOC]'' @ [CHR 0x0A]"

definition lines_S1 :: "kv_line list" where
  "lines_S1 = [(None, ''bssid'', Some ''02:00:00:00:00:00''), (None, ''freq'', Some ''2412''),
               (None, ''flags'', Some ''[AUTH][ASSOC]'')]"

text \<open>A response with empty lines, a line with leading delimiters and a space after the
  key, and a tagged last line that no newline ends; and a response with a line that holds
  delimiters only.\<close>

definition text_mixed :: string where
  "text_mixed = [CHR 0x0A] @ ''state=ENABLED'' @ [CHR 0x0A, CHR 0x0A] @ '' =ssid halow=x'' @
                [CHR 0x0A] @ ''<3>AP-ENABLED''"

definition text_blank_key :: string where
  "text_blank_key = ''state=ENABLED'' @ [CHR 0x0A] @ ''= '' @ [CHR 0x0A] @ ''freq=5180'' @
                    [CHR 0x0A]"

text \<open>A \<open>STATUS\<close> response that carries no \<open>flags\<close> line.\<close>

definition status_without_flags :: string where
  "status_without_flags = ''state=ENABLED'' @ [CHR 0x0A] @ ''freq=5180'' @ [CHR 0x0A]"


text \<open>A vendor command as \<open>morsectrl.c\<close> sends it, cut to two attributes: an interface index
  and two bytes of vendor data taken from a longer buffer.\<close>

definition attrs_vendor :: "nl_attr list" where
  "attrs_vendor = [(3, Attr_U32 2), (197, Attr_binary 2 [CHR 0x01, CHR 0x00, CHR 0x07])]"

section \<open>Proof devices\<close>

text \<open>
  Invariant of the selection loop, used in the proof of its correctness: among the entries
  \<open>xs\<close> seen so far that tie with \<open>b\<close>, either \<open>b\<close> is at the current channel's
  frequency, or no tied entry is and none is farther from it than \<open>b\<close>.
\<close>

definition tie_ok :: "dcs \<Rightarrow> nat \<Rightarrow> nat list \<Rightarrow> nat \<Rightarrow> bool" where
  "tie_ok ctx cur xs b \<longleftrightarrow>
     (\<forall>p\<in>set xs. score ctx p = score ctx b \<longrightarrow>
        freq ctx b = freq ctx cur \<or>
        (freq ctx p \<noteq> freq ctx cur \<and>
         \<bar>uint (freq ctx cur) - uint (freq ctx p)\<bar> \<le> \<bar>uint (freq ctx cur) - uint (freq ctx b)\<bar>))"

section \<open>Properties\<close>

subsection \<open>EWMA recurrence\<close>

lemma unat_ucast_8_32: "unat (ucast (a :: u8) :: u32) = unat a"
proof -
  have "unat a < 2 ^ 8" using unsigned_less [of a] by simp
  then have "unat a < 2 ^ 32" by simp
  then show ?thesis by (simp add: unsigned_ucast_eq take_bit_nat_eq_self)
qed

lemma unat_ucast_16_32: "unat (ucast (a :: u16) :: u32) = unat a"
proof -
  have "unat a < 2 ^ 16" using unsigned_less [of a] by simp
  then have "unat a < 2 ^ 32" by simp
  then show ?thesis by (simp add: unsigned_ucast_eq take_bit_nat_eq_self)
qed

lemma unat_ucast_32_16: "unat (w :: u32) < 2 ^ 16 \<Longrightarrow> unat (ucast w :: u16) = unat w"
  by (simp add: unsigned_ucast_eq take_bit_nat_eq_self)

lemma apply_ewma_nat:
  assumes a: "unat alpha \<le> 100"
    and q: "(unat alpha * unat m + (100 - unat alpha) * unat s) div 100 < 2 ^ 16"
  shows "unat (apply_ewma alpha m s) =
         (unat alpha * unat m + (100 - unat alpha) * unat s) div 100"
proof -
  let ?n = "unat alpha * unat m + (100 - unat alpha) * unat s"
  have n_small: "?n < 2 ^ 32"
  proof -
    have "?n div 100 < 65536" using q by simp
    then have "?n < 6553600" by (simp add: div_less_iff_less_mult)
    then show ?thesis by simp
  qed
  have ua: "unat (ucast alpha :: u32) = unat alpha"
    by (rule unat_ucast_8_32)
  have la: "unat (EWMA_ALPHA_MAX - (ucast alpha :: u32)) = 100 - unat alpha"
  proof -
    have "(ucast alpha :: u32) \<le> 100"
      using a ua by (simp add: word_le_nat_alt)
    then show ?thesis
      using ua by (simp add: EWMA_ALPHA_MAX_def unat_sub)
  qed
  have m1: "unat alpha * unat m \<le> ?n" by simp
  have m2: "(100 - unat alpha) * unat s \<le> ?n" by simp
  have p1: "unat ((ucast alpha :: u32) * m) = unat alpha * unat m"
    using m1 n_small ua by (simp add: unat_mult_lem [THEN iffD1])
  have p2: "unat ((EWMA_ALPHA_MAX - (ucast alpha :: u32)) * s) = (100 - unat alpha) * unat s"
    using m2 n_small la by (simp add: unat_mult_lem [THEN iffD1])
  have sum: "unat ((ucast alpha :: u32) * m + (EWMA_ALPHA_MAX - ucast alpha) * s) = ?n"
    using p1 p2 n_small by (simp add: unat_add_lem [THEN iffD1])
  have quot: "unat (((ucast alpha :: u32) * m + (EWMA_ALPHA_MAX - ucast alpha) * s) div 100)
              = ?n div 100"
    using sum by (simp add: unat_div)
  show ?thesis
    using quot q by (simp add: apply_ewma_def Let_def unat_ucast_32_16)
qed


lemma chan_set_metric_same:
  "p < length (all_channels ctx) \<Longrightarrow> metric (chan (set_metric ctx p m) p) = m"
  by (simp add: chan_def set_metric_def)

text \<open>
  Claim C2.  One call of the EWMA \<open>process_measurement\<close> operation on a channel at score
  \<open>s\<close> with a measurement of metric \<open>m\<close> leaves the channel at score
  \<open>(alpha * m + (100 - alpha) * s) div 100\<close> and adds one to \<open>n_samples\<close>.  The side
  conditions are those of the 16-bit return type of \<open>apply_ewma\<close>: \<open>alpha\<close> is at most
  100 (which \<open>ewma_op_init\<close> enforces) and the quotient fits in 16 bits (every score below
  \<open>2^16\<close> does).  \<open>n_samples\<close> is a C \<open>int\<close>: the increment is that of 32-bit words.
\<close>

theorem ewma_process_measurement_recurrence:
  assumes "channel < length (all_channels ctx)"
    and "unat (ewma_alpha ewma) \<le> 100"
    and "(unat (ewma_alpha ewma) * unat (meas_metric meas) +
          (100 - unat (ewma_alpha ewma)) * unat (score ctx channel)) div 100 < 2 ^ 16"
  shows "unat (score (ewma_op_process_measurement ctx ewma meas channel) channel) =
           (unat (ewma_alpha ewma) * unat (meas_metric meas) +
            (100 - unat (ewma_alpha ewma)) * unat (score ctx channel)) div 100
       \<and> n_samples (metric (chan (ewma_op_process_measurement ctx ewma meas channel) channel)) =
           n_samples (metric (chan ctx channel)) + 1"
proof -
  let ?m = "metric (chan ctx channel)"
  let ?new = "apply_ewma (ewma_alpha ewma) (ucast (meas_metric meas)) (accumulated_score ?m)"
  have res: "metric (chan (ewma_op_process_measurement ctx ewma meas channel) channel) =
        ?m\<lparr>n_samples := n_samples ?m + 1, accumulated_score := ucast ?new\<rparr>"
    using assms(1) by (simp add: ewma_op_process_measurement_def Let_def chan_set_metric_same)
  have "unat ?new = (unat (ewma_alpha ewma) * unat (ucast (meas_metric meas) :: u32) +
            (100 - unat (ewma_alpha ewma)) * unat (accumulated_score ?m)) div 100"
    using assms(2,3) by (intro apply_ewma_nat) (simp_all add: score_def unat_ucast_8_32)
  then have "unat (ucast ?new :: u32) = (unat (ewma_alpha ewma) * unat (meas_metric meas) +
            (100 - unat (ewma_alpha ewma)) * unat (score ctx channel)) div 100"
    by (simp add: unat_ucast_16_32 unat_ucast_8_32 score_def)
  then show ?thesis using res by (simp add: score_def)
qed

text \<open>Scenario S2: \<open>alpha = 20\<close>, score 100, metric 50 give score 90 and one sample.\<close>

theorem ewma_step_S2_witness:
  "unat (score (ewma_op_process_measurement ctx_S2 ewma_S2 meas_S2 0) 0) = 90
   \<and> n_samples (metric (chan (ewma_op_process_measurement ctx_S2 ewma_S2 meas_S2 0) 0)) = 1"
  using ewma_process_measurement_recurrence [of 0 ctx_S2 ewma_S2 meas_S2]
  by (simp add: ctx_S2_def ewma_S2_def meas_S2_def score_def chan_def)

subsection \<open>Best-channel selection\<close>
lemma sint_eq_uint_small:
  fixes a :: u32
  assumes "uint a < 2 ^ 31"
  shows "sint a = uint a"
proof -
  have lo: "- (2 ^ 31) \<le> uint a"
    by (rule order_trans [OF _ uint_ge_0]) simp
  have "sint a = signed_take_bit 31 (uint a)" by (simp add: sint_uint)
  also have "\<dots> = uint a"
    using assms lo by (intro signed_take_bit_int_eq_self)
  finally show ?thesis .
qed

lemma sint_diff_small:
  fixes a b :: u32
  assumes "uint a < 2 ^ 31" "uint b < 2 ^ 31"
  shows "sint (a - b) = uint a - uint b"
proof -
  have a: "uint a < 2147483648" and b: "uint b < 2147483648" using assms by simp_all
  have "- 2147483648 \<le> uint a - uint b"
    using b uint_ge_0 [of a] by linarith
  then have lo: "- (2 ^ 31) \<le> uint a - uint b" by simp
  have "uint a - uint b < 2147483648"
    using a uint_ge_0 [of b] by linarith
  then have hi: "uint a - uint b < 2 ^ 31" by simp
  have "sint (a - b) = signed_take_bit 31 (sint a - sint b)"
    by (simp add: sint_word_diff)
  also have "\<dots> = signed_take_bit 31 (uint a - uint b)"
    using assms by (simp add: sint_eq_uint_small)
  also have "\<dots> = uint a - uint b"
    using lo hi by (intro signed_take_bit_int_eq_self)
  finally show ?thesis .
qed

lemma sint_c_abs:
  fixes d :: s32
  assumes "- (2 ^ 31) < sint d"
  shows "sint (c_abs d) = \<bar>sint d\<bar>"
proof (cases "sint d < 0")
  case True
  have "sint (- d) = signed_take_bit 31 (- sint d)" by (simp add: sint_word_minus)
  moreover have "signed_take_bit 31 (- sint d) = - sint d"
    using assms True by (intro signed_take_bit_int_eq_self) simp_all
  ultimately show ?thesis using True by (simp add: c_abs_def)
next
  case False
  then show ?thesis by (simp add: c_abs_def)
qed

lemma abs_diff_small:
  fixes a b :: u32
  assumes "uint a < 2 ^ 31" "uint b < 2 ^ 31"
  shows "sint (c_abs (a - b)) = \<bar>uint a - uint b\<bar>"
proof -
  have b: "uint b < 2147483648" using assms by simp
  have "- 2147483648 < uint a - uint b"
    using b uint_ge_0 [of a] by linarith
  then have "- (2 ^ 31) < sint (a - b)"
    using assms by (simp add: sint_diff_small)
  then show ?thesis using assms by (simp add: sint_c_abs sint_diff_small)
qed

lemma highest_score_loop_inv:
  assumes cur: "current_channel ctx = Some cur"
    and fc: "uint (freq ctx cur) < 2 ^ 31"
  shows "\<lbrakk>\<forall>p\<in>set (b # rest). uint (freq ctx p) < 2 ^ 31;
          b \<in> set xs; \<forall>p\<in>set xs. score ctx p \<le> score ctx b; tie_ok ctx cur xs b\<rbrakk>
    \<Longrightarrow> \<exists>b'. highest_score_loop ctx rest (Some b) = Inr (Some b') \<and>
             b' \<in> set (xs @ rest) \<and> (\<forall>p\<in>set (xs @ rest). score ctx p \<le> score ctx b') \<and>
             tie_ok ctx cur (xs @ rest) b'"
proof (induction rest arbitrary: b xs)
  case Nil
  then show ?case by simp
next
  case (Cons n rest)
  have fb: "uint (freq ctx b) < 2 ^ 31" and fn: "uint (freq ctx n) < 2 ^ 31"
    and frest: "\<forall>p\<in>set rest. uint (freq ctx p) < 2 ^ 31"
    using Cons.prems(1) by simp_all
  have absb: "sint (c_abs (freq ctx cur - freq ctx b)) = \<bar>uint (freq ctx cur) - uint (freq ctx b)\<bar>"
    using fc fb by (rule abs_diff_small)
  have absn: "sint (c_abs (freq ctx cur - freq ctx n)) = \<bar>uint (freq ctx cur) - uint (freq ctx n)\<bar>"
    using fc fn by (rule abs_diff_small)
  let ?keep = "\<exists>b'. highest_score_loop ctx rest (Some b) = Inr (Some b') \<and>
             b' \<in> set ((xs @ [n]) @ rest) \<and> (\<forall>p\<in>set ((xs @ [n]) @ rest). score ctx p \<le> score ctx b') \<and>
             tie_ok ctx cur ((xs @ [n]) @ rest) b'"
  let ?take = "\<exists>b'. highest_score_loop ctx rest (Some n) = Inr (Some b') \<and>
             b' \<in> set ((xs @ [n]) @ rest) \<and> (\<forall>p\<in>set ((xs @ [n]) @ rest). score ctx p \<le> score ctx b') \<and>
             tie_ok ctx cur ((xs @ [n]) @ rest) b'"
  have keepI: "?keep" if "score ctx n \<le> score ctx b" "tie_ok ctx cur (xs @ [n]) b"
  proof (rule Cons.IH)
    show "\<forall>p\<in>set (b # rest). uint (freq ctx p) < 2 ^ 31" using fb frest by simp
    show "b \<in> set (xs @ [n])" using Cons.prems(2) by simp
    show "\<forall>p\<in>set (xs @ [n]). score ctx p \<le> score ctx b" using Cons.prems(3) that(1) by auto
    show "tie_ok ctx cur (xs @ [n]) b" by (rule that(2))
  qed
  have takeI: "?take" if "score ctx b \<le> score ctx n" "tie_ok ctx cur (xs @ [n]) n"
  proof (rule Cons.IH)
    show "\<forall>p\<in>set (n # rest). uint (freq ctx p) < 2 ^ 31" using fn frest by simp
    show "n \<in> set (xs @ [n])" by simp
    show "\<forall>p\<in>set (xs @ [n]). score ctx p \<le> score ctx n"
      using Cons.prems(3) that(1) by (auto intro: order_trans)
    show "tie_ok ctx cur (xs @ [n]) n" by (rule that(2))
  qed
  consider (gt) "score ctx b < score ctx n"
    | (eq_cur) "score ctx n = score ctx b" "freq ctx b = freq ctx cur"
    | (eq_take) "score ctx n = score ctx b" "freq ctx b \<noteq> freq ctx cur"
        "\<bar>uint (freq ctx cur) - uint (freq ctx b)\<bar> < \<bar>uint (freq ctx cur) - uint (freq ctx n)\<bar>
         \<or> freq ctx n = freq ctx cur"
    | (eq_keep) "score ctx n = score ctx b" "freq ctx b \<noteq> freq ctx cur"
        "\<not> \<bar>uint (freq ctx cur) - uint (freq ctx b)\<bar> < \<bar>uint (freq ctx cur) - uint (freq ctx n)\<bar>"
        "freq ctx n \<noteq> freq ctx cur"
    | (lt) "score ctx n < score ctx b"
    by (metis linorder_neqE_linordered_idom not_less_iff_gr_or_eq linorder_less_linear)
  then show ?case
  proof cases
    case gt
    have t: "tie_ok ctx cur (xs @ [n]) n"
      unfolding tie_ok_def using Cons.prems(3) gt by (auto simp: not_le [symmetric])
    have "?take" using gt t by (intro takeI) simp_all
    then show ?thesis using gt by simp
  next
    case eq_cur
    have t: "tie_ok ctx cur (xs @ [n]) b"
      unfolding tie_ok_def using eq_cur by simp
    have "?keep" using eq_cur t by (intro keepI) simp_all
    then show ?thesis using eq_cur cur by simp
  next
    case eq_take
    have old: "\<forall>p\<in>set xs. score ctx p = score ctx b \<longrightarrow> freq ctx p \<noteq> freq ctx cur \<and>
         \<bar>uint (freq ctx cur) - uint (freq ctx p)\<bar> \<le> \<bar>uint (freq ctx cur) - uint (freq ctx b)\<bar>"
      using Cons.prems(4) eq_take(2) unfolding tie_ok_def by blast
    have t: "tie_ok ctx cur (xs @ [n]) n"
      unfolding tie_ok_def using old eq_take by auto
    have "?take" using eq_take t by (intro takeI) simp_all
    then show ?thesis using eq_take cur absb absn by (auto simp: Let_def)
  next
    case eq_keep
    have t: "tie_ok ctx cur (xs @ [n]) b"
      unfolding tie_ok_def using Cons.prems(4) eq_keep unfolding tie_ok_def by auto
    have "?keep" using eq_keep t by (intro keepI) simp_all
    then show ?thesis using eq_keep cur absb absn by (auto simp: Let_def)
  next
    case lt
    have t: "tie_ok ctx cur (xs @ [n]) b"
      unfolding tie_ok_def using Cons.prems(4) lt unfolding tie_ok_def by auto
    have "?keep" using lt t by (intro keepI) simp_all
    then show ?thesis using lt by (auto simp: Let_def)
  qed
qed

lemma highest_score_loop_cong:
  assumes "current_channel ctx' = current_channel ctx"
  shows "\<lbrakk>\<forall>p\<in>set xs \<union> set_option best \<union> set_option (current_channel ctx).
            score ctx' p = score ctx p \<and> freq ctx' p = freq ctx p\<rbrakk>
         \<Longrightarrow> highest_score_loop ctx' xs best = highest_score_loop ctx xs best"
proof (induction xs arbitrary: best)
  case Nil
  then show ?case by simp
next
  case (Cons n xs)
  have n: "score ctx' n = score ctx n" "freq ctx' n = freq ctx n"
    using Cons.prems by simp_all
  have ih: "highest_score_loop ctx' xs (Some q) = highest_score_loop ctx xs (Some q)"
    if "q = n \<or> Some q = best" for q
    using that Cons.prems by (intro Cons.IH) auto
  show ?case
  proof (cases best)
    case None
    then show ?thesis using ih [of n] by simp
  next
    case (Some b)
    have b: "score ctx' b = score ctx b" "freq ctx' b = freq ctx b"
      using Cons.prems Some by simp_all
    show ?thesis
    proof (cases "current_channel ctx")
      case None
      then show ?thesis using Some assms n b ih [of n] ih [of b] by simp
    next
      case (Some cur)
      have c: "freq ctx' cur = freq ctx cur" using Cons.prems Some by simp
      show ?thesis
        using \<open>best = Some b\<close> Some assms n b c ih [of n] ih [of b] by (simp add: Let_def)
    qed
  qed
qed

text \<open>
  Claim C1.  On a non-empty scan list \<open>dcs_algo_get_channel_with_highest_score\<close> returns
  an entry of the list whose accumulated score is the highest.  Among the entries that tie
  with it: if one of them is at the current channel's frequency, so is the result (and the
  result is the current channel itself when no other entry shares its frequency); otherwise
  no tied entry is farther in frequency from the current channel than the result.  The
  result depends only on the scan list, the current channel and the scores and frequencies
  of the channels involved, so repeated calls with unchanged scores return the same pointer.
  The frequencies are taken below \<open>2^31\<close> kHz, where the \<open>int32_t\<close> differences of the
  code are the true differences.
\<close>

theorem best_channel_selection:
  assumes ne: "scan_list ctx \<noteq> []"
    and cur: "current_channel ctx = Some cur"
    and rng: "\<forall>p\<in>set (cur # scan_list ctx). uint (freq ctx p) < 2 ^ 31"
  shows "\<exists>b. dcs_algo_get_channel_with_highest_score ctx = Inr (Some b) \<and>
     b \<in> set (scan_list ctx) \<and>
     (\<forall>p\<in>set (scan_list ctx). score ctx p \<le> score ctx b) \<and>
     ((\<exists>p\<in>set (scan_list ctx). score ctx p = score ctx b \<and> freq ctx p = freq ctx cur)
        \<longrightarrow> freq ctx b = freq ctx cur) \<and>
     ((\<forall>p\<in>set (scan_list ctx). score ctx p = score ctx b \<longrightarrow> freq ctx p \<noteq> freq ctx cur)
        \<longrightarrow> (\<forall>p\<in>set (scan_list ctx). score ctx p = score ctx b \<longrightarrow>
               \<bar>uint (freq ctx cur) - uint (freq ctx p)\<bar> \<le> \<bar>uint (freq ctx cur) - uint (freq ctx b)\<bar>)) \<and>
     (cur \<in> set (scan_list ctx) \<and> score ctx cur = score ctx b \<and>
        (\<forall>p\<in>set (scan_list ctx). freq ctx p = freq ctx cur \<longrightarrow> p = cur) \<longrightarrow> b = cur) \<and>
     (\<forall>ctx'. scan_list ctx' = scan_list ctx \<and> current_channel ctx' = current_channel ctx \<and>
        (\<forall>p\<in>set (cur # scan_list ctx). score ctx' p = score ctx p \<and> freq ctx' p = freq ctx p)
        \<longrightarrow> dcs_algo_get_channel_with_highest_score ctx' =
            dcs_algo_get_channel_with_highest_score ctx)"
proof -
  obtain n rest where sl: "scan_list ctx = n # rest"
    using ne by (cases "scan_list ctx") auto
  have fc: "uint (freq ctx cur) < 2 ^ 31" using rng by simp
  have "\<exists>b'. highest_score_loop ctx rest (Some n) = Inr (Some b') \<and>
             b' \<in> set ([n] @ rest) \<and> (\<forall>p\<in>set ([n] @ rest). score ctx p \<le> score ctx b') \<and>
             tie_ok ctx cur ([n] @ rest) b'"
    using cur fc
  proof (rule highest_score_loop_inv)
    show "\<forall>p\<in>set (n # rest). uint (freq ctx p) < 2 ^ 31" using rng sl by simp
    show "n \<in> set [n]" by simp
    show "\<forall>p\<in>set [n]. score ctx p \<le> score ctx n" by simp
    show "tie_ok ctx cur [n] n" by (simp add: tie_ok_def)
  qed
  then obtain b where run: "dcs_algo_get_channel_with_highest_score ctx = Inr (Some b)"
    and mem: "b \<in> set (scan_list ctx)"
    and mx: "\<forall>p\<in>set (scan_list ctx). score ctx p \<le> score ctx b"
    and tie: "tie_ok ctx cur (scan_list ctx) b"
    using sl by (auto simp: dcs_algo_get_channel_with_highest_score_def)
  have t1: "(\<exists>p\<in>set (scan_list ctx). score ctx p = score ctx b \<and> freq ctx p = freq ctx cur)
        \<longrightarrow> freq ctx b = freq ctx cur"
    using tie unfolding tie_ok_def by blast
  have t2: "(\<forall>p\<in>set (scan_list ctx). score ctx p = score ctx b \<longrightarrow> freq ctx p \<noteq> freq ctx cur)
        \<longrightarrow> (\<forall>p\<in>set (scan_list ctx). score ctx p = score ctx b \<longrightarrow>
               \<bar>uint (freq ctx cur) - uint (freq ctx p)\<bar> \<le> \<bar>uint (freq ctx cur) - uint (freq ctx b)\<bar>)"
    using tie mem unfolding tie_ok_def by blast
  have t3: "cur \<in> set (scan_list ctx) \<and> score ctx cur = score ctx b \<and>
        (\<forall>p\<in>set (scan_list ctx). freq ctx p = freq ctx cur \<longrightarrow> p = cur) \<longrightarrow> b = cur"
    using t1 mem by blast
  have t4: "\<forall>ctx'. scan_list ctx' = scan_list ctx \<and> current_channel ctx' = current_channel ctx \<and>
        (\<forall>p\<in>set (cur # scan_list ctx). score ctx' p = score ctx p \<and> freq ctx' p = freq ctx p)
        \<longrightarrow> dcs_algo_get_channel_with_highest_score ctx' =
            dcs_algo_get_channel_with_highest_score ctx"
  proof (intro allI impI)
    fix ctx'
    assume a: "scan_list ctx' = scan_list ctx \<and> current_channel ctx' = current_channel ctx \<and>
        (\<forall>p\<in>set (cur # scan_list ctx). score ctx' p = score ctx p \<and> freq ctx' p = freq ctx p)"
    have "highest_score_loop ctx' (scan_list ctx) None = highest_score_loop ctx (scan_list ctx) None"
      using a cur by (intro highest_score_loop_cong) auto
    then show "dcs_algo_get_channel_with_highest_score ctx' =
            dcs_algo_get_channel_with_highest_score ctx"
      using a by (simp add: dcs_algo_get_channel_with_highest_score_def)
  qed
  show ?thesis using run mem mx t1 t2 t3 t4 by blast
qed

text \<open>A tie between the channels 5 MHz and 7 MHz away selects the farther one, also after
  \<open>rounds_as_best\<close> has changed.\<close>

theorem best_channel_tie_witness:
  "scan_list ctx_tie \<noteq> [] \<and> current_channel ctx_tie = Some 0 \<and>
   dcs_algo_get_channel_with_highest_score ctx_tie = Inr (Some 2) \<and>
   score ctx_tie 1 = score ctx_tie 2 \<and>
   dcs_algo_get_channel_with_highest_score (inc_rounds_as_best ctx_tie 2) = Inr (Some 2)"
  using best_channel_selection [of ctx_tie 0]
  by (simp add: ctx_tie_def dcs_algo_get_channel_with_highest_score_def score_def freq_def
      chan_def c_abs_def Let_def inc_rounds_as_best_def set_metric_def)
subsection \<open>Sample-and-hold evaluation\<close>

lemma chan_set_metric_other:
  "q \<noteq> p \<Longrightarrow> chan (set_metric ctx p m) q = chan ctx q"
  by (simp add: chan_def set_metric_def)

lemma ch_chan_set_metric: "ch (chan (set_metric ctx p m) q) = ch (chan ctx q)"
  by (cases "q = p"; cases "p < length (all_channels ctx)") (simp_all add: chan_def set_metric_def list_update_beyond)

lemma length_set_metric [simp]:
  "length (all_channels (set_metric ctx p m)) = length (all_channels ctx)"
  by (simp add: set_metric_def)

lemma scan_list_set_metric [simp]: "scan_list (set_metric ctx p m) = scan_list ctx"
  by (simp add: set_metric_def)

lemma current_channel_set_metric [simp]: "current_channel (set_metric ctx p m) = current_channel ctx"
  by (simp add: set_metric_def)

lemma log_level_set_metric [simp]: "log_level (set_metric ctx p m) = log_level ctx"
  by (simp add: set_metric_def)

lemma score_inc_rounds [simp]: "score (inc_rounds_as_best ctx p) q = score ctx q"
  by (cases "q = p"; cases "p < length (all_channels ctx)")
     (simp_all add: score_def inc_rounds_as_best_def chan_def set_metric_def list_update_beyond)

lemma freq_inc_rounds [simp]: "freq (inc_rounds_as_best ctx p) q = freq ctx q"
  by (simp add: freq_def inc_rounds_as_best_def ch_chan_set_metric)

lemma inc_rounds_fields [simp]:
  "scan_list (inc_rounds_as_best ctx p) = scan_list ctx"
  "current_channel (inc_rounds_as_best ctx p) = current_channel ctx"
  "log_level (inc_rounds_as_best ctx p) = log_level ctx"
  "length (all_channels (inc_rounds_as_best ctx p)) = length (all_channels ctx)"
  by (simp_all add: inc_rounds_as_best_def)


lemma n_samples_inc_rounds [simp]:
  "n_samples (metric (chan (inc_rounds_as_best ctx p) q)) = n_samples (metric (chan ctx q))"
  by (cases "q = p"; cases "p < length (all_channels ctx)")
     (simp_all add: inc_rounds_as_best_def chan_def set_metric_def list_update_beyond)

lemma fold_reset_fields:
  "length (all_channels (fold (reset_one v) xs ctx)) = length (all_channels ctx) \<and>
   scan_list (fold (reset_one v) xs ctx) = scan_list ctx \<and>
   current_channel (fold (reset_one v) xs ctx) = current_channel ctx"
  by (induction xs arbitrary: ctx) (simp_all add: reset_one_def)

lemma rounds_reset_one [simp]:
  "rounds_as_best (metric (chan (reset_one v p ctx) q)) = rounds_as_best (metric (chan ctx q))"
  by (cases "q = p"; cases "p < length (all_channels ctx)")
     (simp_all add: reset_one_def chan_def set_metric_def list_update_beyond)



lemma length_reset_one [simp]:
  "length (all_channels (reset_one v p ctx)) = length (all_channels ctx)"
  by (simp add: reset_one_def)


lemma n_samples_reset_one:
  "n_samples (metric (chan (reset_one v p ctx) q)) =
     (if q = p \<and> p < length (all_channels ctx) then 0 else n_samples (metric (chan ctx q)))"
  by (cases "q = p"; cases "p < length (all_channels ctx)")
     (simp_all add: reset_one_def chan_def set_metric_def list_update_beyond)









subsection \<open>Primary channel centre and secondary offset\<close>

lemma and_1_eq_0_iff_even_sint: "(w AND 1 = 0) = even (sint w)" for w :: s32
proof -
  have "(w AND 1 = 0) = even w" by (simp add: and_one_eq even_iff_mod_2_eq_zero)
  also have "\<dots> = even (sint w)"
    by transfer (simp add: even_signed_take_bit_iff even_take_bit_eq)
  finally show ?thesis .
qed

lemma uint_ucast_8_32: "uint (ucast (a :: u8) :: u32) = uint a"
proof -
  have "uint a < 2 ^ 8" using unsigned_less [of a] by simp
  then have "uint a < 2 ^ 32" by simp
  then show ?thesis by (simp add: unsigned_ucast_eq take_bit_int_eq_self)
qed

lemma half_bw_khz:
  "MHZ_TO_KHZ (ucast (bw :: u8)) div 2 = (word_of_int (uint bw * 1000 div 2) :: u32)"
proof -
  have b: "uint bw < 256" using unsigned_less [of bw] by simp
  have "uint (ucast bw :: u32) * uint (1000 :: u32) < 2 ^ 32"
    using b uint_ge_0 [of bw] by (simp add: uint_ucast_8_32)
  then have "uint ((ucast bw :: u32) * 1000) = uint bw * 1000"
    by (simp add: uint_mult_lem [THEN iffD1] uint_ucast_8_32)
  then have "uint (MHZ_TO_KHZ (ucast bw) div 2) = uint bw * 1000 div 2"
    by (simp add: MHZ_TO_KHZ_def uint_div)
  then show ?thesis by (metis word_of_int_uint)
qed

lemma idx_khz: "MHZ_TO_KHZ i = word_of_int (sint i * 1000)" for i :: s32
  by (simp add: MHZ_TO_KHZ_def)

lemma sdiv_nonneg_2: "0 \<le> k \<Longrightarrow> k sdiv 2 = k div 2" for k :: int
  by (simp add: signed_divide_int_def sgn_if)

lemma half_idx_khz:
  "0 \<le> sint i \<Longrightarrow> MHZ_TO_KHZ (c_sdiv i 2) * 2 = word_of_int (sint i div 2 * 2000)" for i :: s32
  by (simp add: MHZ_TO_KHZ_def c_sdiv_def sdiv_nonneg_2)


lemma uint_word_of_int_small:
  "0 \<le> k \<Longrightarrow> k < 2 ^ 32 \<Longrightarrow> uint (word_of_int k :: u32) = k"
  by (simp add: uint_word_of_int)

lemma do_channel_switch_request:
  assumes "do_channel_switch ctx (Some p) env = Inr (ret, ctx', evs)" and "csa_enabled ctx"
  shows "\<exists>prim rest. calculate_new_prim_ch_center_freq ctx (chan ctx p) = Inr prim \<and>
           evs = Ev_chan_switch_request (make_ecsa_cmd ctx (chan ctx p) prim) # rest"
  using assms
  by (auto simp: do_channel_switch_def Let_def csa_exit_def
      split: sum.splits list.splits mmsm_key.splits if_splits cond_wait.splits)

text \<open>
  Claim C7.  For a candidate channel of frequency \<open>f\<close> kHz and bandwidth \<open>bw\<close> MHz, with
  \<open>bottom = f - bw * 1000 div 2\<close> and primary 1 MHz index \<open>i\<close>, the primary centre
  frequency is \<open>bottom + i * 1000 + 500\<close> for primary width 1 and
  \<open>bottom + (i div 2) * 2000 + 1000\<close> for primary width 2; the secondary channel offset is 0
  for a 1 MHz channel, otherwise 1 for even \<open>i\<close> and -1 for odd \<open>i\<close>; and these are the
  values \<open>do_channel_switch\<close> puts into the switch command.  The function returns when its
  closing assertion holds (the centre lies below the top of the channel); the index is not
  negative and the channel's edges lie within 32 bits.
\<close>

theorem primary_center_and_sec_offset:
  fixes ctx :: dcs and p :: nat
  defines "f \<equiv> uint (frequency_khz (ch (chan ctx p)))"
    and "bw \<equiv> uint (bandwidth_mhz (ch (chan ctx p)))"
    and "i \<equiv> sint (current_prim_1mhz_ch_index ctx)"
  defines "center \<equiv>
      (if current_primary_ch_width ctx = 1 then f - bw * 1000 div 2 + i * 1000 + 500
       else f - bw * 1000 div 2 + (i div 2) * 2000 + 1000)"
    and "offset \<equiv> (if bw = 1 then 0 else if even i then 1 else - 1)"
  assumes w: "current_primary_ch_width ctx = 1 \<or> current_primary_ch_width ctx = 2"
    and i0: "0 \<le> i"
    and lo: "bw * 1000 div 2 \<le> f"
    and hi: "f + bw * 1000 div 2 < 2 ^ 32"
    and top: "center < f + bw * 1000 div 2"
  shows "(\<exists>r. calculate_new_prim_ch_center_freq ctx (chan ctx p) = Inr r \<and> uint r = center) \<and>
         sint (calculate_sec_channel_offset ctx (chan ctx p)) = offset \<and>
         (\<forall>env ret ctx' evs.
            csa_enabled ctx \<and> do_channel_switch ctx (Some p) env = Inr (ret, ctx', evs) \<longrightarrow>
            (\<exists>cmd rest. evs = Ev_chan_switch_request cmd # rest \<and>
               uint (prim_center_khz cmd) = center \<and> sint (sec_channel_offset cmd) = offset))"
proof -
  let ?c = "chan ctx p"
  let ?half = "MHZ_TO_KHZ (ucast (bandwidth_mhz (ch ?c))) div 2 :: u32"
  let ?idx = "current_prim_1mhz_ch_index ctx"
  have bw0: "0 \<le> bw" by (simp add: bw_def)
  have half: "?half = word_of_int (bw * 1000 div 2)"
    unfolding bw_def by (rule half_bw_khz)
  have fw: "frequency_khz (ch ?c) = word_of_int f" by (simp add: f_def)
  have c0: "0 \<le> center"
    using i0 lo bw0 by (auto simp: center_def intro!: add_nonneg_nonneg)
  have c32: "center < 2 ^ 32" using top hi by linarith
  have f0: "0 \<le> f" by (simp add: f_def)
  have utop: "uint (frequency_khz (ch ?c) + ?half) = f + bw * 1000 div 2"
  proof -
    have e: "frequency_khz (ch ?c) + ?half = word_of_int (f + bw * 1000 div 2)"
      unfolding half by (simp add: f_def)
    have "0 \<le> f + bw * 1000 div 2" using lo bw0 f0 by linarith
    then have "uint (word_of_int (f + bw * 1000 div 2) :: u32) = f + bw * 1000 div 2"
      using hi by (rule uint_word_of_int_small)
    then show ?thesis by (simp only: e)
  qed
  have ucenter: "uint (word_of_int center :: u32) = center"
    using c0 c32 by (rule uint_word_of_int_small)
  have prim1: "frequency_khz (ch ?c) - ?half + MHZ_TO_KHZ ?idx + 500 =
               word_of_int (f - bw * 1000 div 2 + i * 1000 + 500)"
    by (simp only: half) (simp add: fw idx_khz i_def)
  have prim2: "frequency_khz (ch ?c) - ?half + MHZ_TO_KHZ (c_sdiv ?idx 2) * 2 + 1000 =
               word_of_int (f - bw * 1000 div 2 + (i div 2) * 2000 + 1000)"
    using i0 by (simp only: half) (simp add: fw half_idx_khz i_def)
  have calc: "calculate_new_prim_ch_center_freq ctx ?c = Inr (word_of_int center)"
  proof (cases "current_primary_ch_width ctx = 1")
    case True
    then have c: "center = f - bw * 1000 div 2 + i * 1000 + 500" by (simp add: center_def)
    have "word_of_int center < frequency_khz (ch ?c) + ?half"
      using top ucenter utop by (simp add: word_less_alt)
    then show ?thesis
      using True prim1 c by (simp add: calculate_new_prim_ch_center_freq_def Let_def)
  next
    case False
    then have w2: "current_primary_ch_width ctx = 2" using w by simp
    have c: "center = f - bw * 1000 div 2 + (i div 2) * 2000 + 1000"
      using False by (simp add: center_def)
    have "word_of_int center < frequency_khz (ch ?c) + ?half"
      using top ucenter utop by (simp add: word_less_alt)
    then show ?thesis
      using w2 prim2 c by (simp add: calculate_new_prim_ch_center_freq_def Let_def)
  qed
  have b1: "(bandwidth_mhz (ch ?c) = 1) = (bw = 1)"
    unfolding bw_def by (metis uint_1_eq word_uint_eq_iff)
  have off: "sint (calculate_sec_channel_offset ctx ?c) = offset"
    by (simp add: calculate_sec_channel_offset_def offset_def b1 and_1_eq_0_iff_even_sint i_def)
  have sw: "\<exists>cmd rest. evs = Ev_chan_switch_request cmd # rest \<and>
               uint (prim_center_khz cmd) = center \<and> sint (sec_channel_offset cmd) = offset"
    if "csa_enabled ctx \<and> do_channel_switch ctx (Some p) env = Inr (ret, ctx', evs)"
    for env ret ctx' evs
    using do_channel_switch_request [of ctx p env ret ctx' evs] that calc ucenter off
    by (auto simp: make_ecsa_cmd_def)
  show ?thesis using calc ucenter off sw by blast
qed

text \<open>Scenario S4: primary centre 9201000 kHz, secondary offset 1.\<close>

theorem primary_center_S4_witness:
  "calculate_new_prim_ch_center_freq ctx_S4 (chan ctx_S4 0) = Inr 9201000 \<and>
   sint (calculate_sec_channel_offset ctx_S4 (chan ctx_S4 0)) = 1 \<and>
   (\<exists>ret ctx' cmd rest. do_channel_switch ctx_S4 (Some 0) env_S4
        = Inr (ret, ctx', Ev_chan_switch_request cmd # rest) \<and>
      prim_center_khz cmd = 9201000 \<and> sint (sec_channel_offset cmd) = 1)"
  using primary_center_and_sec_offset [of ctx_S4 0]
  by (simp add: ctx_S4_def env_S4_def chan_def calculate_new_prim_ch_center_freq_def
      calculate_sec_channel_offset_def MHZ_TO_KHZ_def c_sdiv_def signed_divide_int_def
      do_channel_switch_def make_ecsa_cmd_def csa_exit_def Let_def)
subsection \<open>Exit paths of the channel switch\<close>

text \<open>
  Claim C4, as amended.  \<open>do_channel_switch\<close> returns whenever its channel is not null, the
  primary-centre assertion holds and the response's first key is a string.  If switching is
  enabled, then on every exit path \<open>csa.in_progress\<close> is false and \<open>csa.freq_5g\<close> is 0 on
  return; if it is disabled, the call returns 0 at once and leaves the context as it was.
  Either way a call entered with \<open>in_progress\<close> false returns with it false.  If switching
  is enabled and the response's first key is not \<open>OK\<close>, the call fails with \<open>-EBADR\<close>
  and has not waited on the condition variable.
\<close>

theorem do_channel_switch_exit_paths:
  assumes ch: "channel = Some p"
    and calc: "csa_enabled ctx \<longrightarrow>
               (\<exists>prim. calculate_new_prim_ch_center_freq ctx (chan ctx p) = Inr prim)"
    and key: "\<forall>item rest. csa_response env = item # rest \<longrightarrow> (\<exists>k. mmsm_key item = Key_String k)"
  shows "\<exists>ret ctx' evs. do_channel_switch ctx channel env = Inr (ret, ctx', evs) \<and>
     (csa_enabled ctx \<longrightarrow> \<not> csa_in_progress ctx' \<and> csa_freq_5g ctx' = 0) \<and>
     (\<not> csa_enabled ctx \<longrightarrow> ret = None \<and> ctx' = ctx \<and> evs = []) \<and>
     (\<not> csa_in_progress ctx \<longrightarrow> \<not> csa_in_progress ctx') \<and>
     (csa_enabled ctx \<and>
      (\<exists>item rest. csa_response env = item # rest \<and> mmsm_key item \<noteq> Key_String ''OK'')
        \<longrightarrow> ret = Some EBADR \<and> (\<forall>t. Ev_csa_cond_wait t \<notin> set evs))"
proof (cases "csa_enabled ctx")
  case False
  then show ?thesis using ch by (simp add: do_channel_switch_def)
next
  case True
  then obtain prim where prim: "calculate_new_prim_ch_center_freq ctx (chan ctx p) = Inr prim"
    using calc by blast
  show ?thesis
  proof (cases "csa_response env")
    case Nil
    then show ?thesis using ch True prim by (simp add: do_channel_switch_def csa_exit_def)
  next
    case (Cons item rest)
    then obtain k where k: "mmsm_key item = Key_String k" using key by blast
    show ?thesis
    proof (cases "k = ''OK''")
      case ok: True
      show ?thesis
        using ch True prim Cons k ok
        by (cases "csa_wait env") (simp_all add: do_channel_switch_def csa_exit_def Let_def)
    next
      case False
      then show ?thesis
        using ch True prim Cons k by (simp add: do_channel_switch_def csa_exit_def)
    qed
  qed
qed

text \<open>The answer \<open>FAIL\<close>: \<open>-EBADR\<close>, one request and no wait.\<close>

theorem do_channel_switch_not_ok_witness:
  "do_channel_switch ctx_S4 (Some 0) env_fail =
     Inr (Some EBADR, ctx_S4,
          [Ev_chan_switch_request (make_ecsa_cmd ctx_S4 (chan ctx_S4 0) 9201000)])"
  using do_channel_switch_exit_paths [of "Some 0" 0 ctx_S4 env_fail]
  by (simp add: ctx_S4_def env_fail_def chan_def calculate_new_prim_ch_center_freq_def
      MHZ_TO_KHZ_def c_sdiv_def signed_divide_int_def do_channel_switch_def csa_exit_def Let_def)

text \<open>With switching disabled the early return leaves \<open>csa.freq_5g\<close> as it found it:
  not every exit path clears it.\<close>

theorem do_channel_switch_disabled_counterexample:
  "do_channel_switch ctx_csa_off (Some 0) env_S4 = Inr (None, ctx_csa_off, []) \<and>
   csa_freq_5g ctx_csa_off = 5180"
  by (simp add: ctx_csa_off_def ctx_S4_def do_channel_switch_def)
subsection \<open>Evaluation on an empty scan list\<close>

lemma get_best_empty:
  "scan_list ctx = [] \<Longrightarrow> dcs_algo_get_channel_with_highest_score ctx = Inr None"
  by (simp add: dcs_algo_get_channel_with_highest_score_def)

lemma ewma_evaluate_empty:
  "scan_list ctx = [] \<Longrightarrow> ewma_op_evaluate_channels ctx e = Inl Null_deref"
  by (simp add: ewma_op_evaluate_channels_def get_best_empty Let_def split: option.splits)

lemma sample_hold_evaluate_empty:
  "scan_list ctx = [] \<Longrightarrow> sample_hold_op_evaluate_channels ctx s = Inl Null_deref"
  by (simp add: sample_hold_op_evaluate_channels_def get_best_empty)

lemma evaluate_empty:
  "scan_list ctx = [] \<Longrightarrow> dcs_algo_ops_evaluate_channels ctx a = Inl Null_deref"
  by (cases a)
     (simp_all add: dcs_algo_ops_evaluate_channels_def ewma_evaluate_empty
        sample_hold_evaluate_empty)

lemma iteration_failed_retry:
  assumes "th_channel st = Some c" and "env_meas env = None"
    and "sint (th_attempt_count st + 1) < 3"
  shows "measurement_iteration st env = Inr (st\<lparr>th_attempt_count := th_attempt_count st + 1\<rparr>)"
  using assms
  by (simp add: measurement_iteration_def MAX_CHANNEL_MEASURE_RETRIES_def Let_def)

lemma iteration_failed_last_channel:
  assumes "th_channel st = Some c" and "env_meas env = None"
    and "3 \<le> sint (th_attempt_count st + 1)" and "scan_list (th_ctx st) = [c]"
  shows "measurement_iteration st env = Inl Null_deref"
  using assms
  by (simp add: measurement_iteration_def MAX_CHANNEL_MEASURE_RETRIES_def Let_def
      list_get_next_item_or_null_def list_remove_def round_completed_def evaluate_empty)

text \<open>
  Claim C10.  On an empty scan list the selection helper returns null and the
  \<open>evaluate_channels\<close> operation of either algorithm dereferences it: an evaluation that
  returns had a non-empty scan list.  The scan thread reaches that state: with a single
  channel on the scan list, two failed measurements are retried and the third removes the
  channel and goes on to evaluate the now empty list.
\<close>

theorem evaluate_channels_needs_scan_list:
  "(scan_list ctx = [] \<longrightarrow>
      dcs_algo_get_channel_with_highest_score ctx = Inr None \<and>
      ewma_op_evaluate_channels ctx e = Inl Null_deref \<and>
      sample_hold_op_evaluate_channels ctx s = Inl Null_deref) \<and>
   ((\<exists>r. dcs_algo_ops_evaluate_channels ctx a = Inr r) \<longrightarrow> scan_list ctx \<noteq> []) \<and>
   (scan_list (th_ctx st) = [c] \<and> th_channel st = Some c \<and> th_attempt_count st = 0 \<and>
    env_meas e1 = None \<and> env_meas e2 = None \<and> env_meas e3 = None \<longrightarrow>
      run_iterations st [e1, e2] = Inr (st\<lparr>th_attempt_count := 2\<rparr>) \<and>
      run_iterations st [e1, e2, e3] = Inl Null_deref)"
proof (intro conjI impI)
  assume "scan_list ctx = []"
  then show "dcs_algo_get_channel_with_highest_score ctx = Inr None"
    and "ewma_op_evaluate_channels ctx e = Inl Null_deref"
    and "sample_hold_op_evaluate_channels ctx s = Inl Null_deref"
    by (rule get_best_empty ewma_evaluate_empty sample_hold_evaluate_empty)+
next
  assume "\<exists>r. dcs_algo_ops_evaluate_channels ctx a = Inr r"
  then show "scan_list ctx \<noteq> []" using evaluate_empty [of ctx a] by auto
next
  assume a: "scan_list (th_ctx st) = [c] \<and> th_channel st = Some c \<and> th_attempt_count st = 0 \<and>
    env_meas e1 = None \<and> env_meas e2 = None \<and> env_meas e3 = None"
  let ?st1 = "st\<lparr>th_attempt_count := 1\<rparr>"
  let ?st2 = "st\<lparr>th_attempt_count := 2\<rparr>"
  have i1: "measurement_iteration st e1 = Inr ?st1"
    using a iteration_failed_retry [of st c e1] by simp
  have i2: "measurement_iteration ?st1 e2 = Inr ?st2"
    using a iteration_failed_retry [of ?st1 c e2] by simp
  have i3: "measurement_iteration ?st2 e3 = Inl Null_deref"
    using a iteration_failed_last_channel [of ?st2 c e3] by simp
  show "run_iterations st [e1, e2] = Inr ?st2" using i1 i2 by simp
  show "run_iterations st [e1, e2, e3] = Inl Null_deref" using i1 i2 i3 by simp
qed

text \<open>A one-channel scan list and three failed measurements.\<close>

theorem scan_thread_last_channel_witness:
  "scan_list (th_ctx thread_one_channel) = [0] \<and>
   run_iterations thread_one_channel [env_meas_failed, env_meas_failed]
     = Inr (thread_one_channel\<lparr>th_attempt_count := 2\<rparr>) \<and>
   run_iterations thread_one_channel [env_meas_failed, env_meas_failed, env_meas_failed]
     = Inl Null_deref"
  using evaluate_channels_needs_scan_list
    [of ctx_S2 ewma_S2 sh_S3 "Ewma ewma_S2" thread_one_channel 0
        env_meas_failed env_meas_failed env_meas_failed]
  by (simp add: thread_one_channel_def env_meas_failed_def ctx_S2_def)
subsection \<open>Replay exhaustion\<close>

lemma total_samples_Nil [simp]: "total_samples [] = 0"
  by (simp add: total_samples_def)

lemma total_samples_Cons [simp]:
  "total_samples (pc # l) = length (channel_sample_list pc) + total_samples l"
  by (simp add: total_samples_def)

lemma total_samples_0:
  "\<forall>pc\<in>set l. channel_sample_list pc \<noteq> [] \<Longrightarrow> (total_samples l = 0) = (l = [])"
  by (cases l) auto

lemma pop_loop_spec:
  assumes "\<forall>pc\<in>set l. channel_sample_list pc \<noteq> []"
  shows "\<exists>r l'. pop_loop l f = Inr (r, l') \<and> (\<forall>pc\<in>set l'. channel_sample_list pc \<noteq> []) \<and>
     (case find (\<lambda>pc. frequency_khz (pc_ch pc) = f) l of
        None \<Rightarrow> r = None \<and> l' = l
      | Some pc \<Rightarrow> r = Some (hd (channel_sample_list pc)) \<and>
                   l' = takeWhile (\<lambda>pc. frequency_khz (pc_ch pc) \<noteq> f) l @
                        (if tl (channel_sample_list pc) = [] then []
                         else [pc\<lparr>channel_sample_list := tl (channel_sample_list pc)\<rparr>]) @
                        tl (dropWhile (\<lambda>pc. frequency_khz (pc_ch pc) \<noteq> f) l) \<and>
                   total_samples l' + 1 = total_samples l)"
  using assms
proof (induction l)
  case Nil
  then show ?case by simp
next
  case (Cons pc l)
  show ?case
  proof (cases "frequency_khz (pc_ch pc) = f")
    case True
    obtain m ms where s: "channel_sample_list pc = m # ms"
      using Cons.prems by (cases "channel_sample_list pc") auto
    show ?thesis using True s Cons.prems by auto
  next
    case False
    obtain r l' where ih: "pop_loop l f = Inr (r, l')"
        "\<forall>pc\<in>set l'. channel_sample_list pc \<noteq> []"
        "(case find (\<lambda>pc. frequency_khz (pc_ch pc) = f) l of
            None \<Rightarrow> r = None \<and> l' = l
          | Some pc \<Rightarrow> r = Some (hd (channel_sample_list pc)) \<and>
                       l' = takeWhile (\<lambda>pc. frequency_khz (pc_ch pc) \<noteq> f) l @
                            (if tl (channel_sample_list pc) = [] then []
                             else [pc\<lparr>channel_sample_list := tl (channel_sample_list pc)\<rparr>]) @
                            tl (dropWhile (\<lambda>pc. frequency_khz (pc_ch pc) \<noteq> f) l) \<and>
                       total_samples l' + 1 = total_samples l)"
      using Cons.IH Cons.prems by auto
    show ?thesis using False ih Cons.prems by (auto split: option.splits)
  qed
qed

lemma pop_channel_measurement_spec:
  assumes "\<forall>pc\<in>set l. channel_sample_list pc \<noteq> []"
  shows "\<exists>r l'. pop_channel_measurement l f = Inr (r, l', l' = []) \<and>
     (\<forall>pc\<in>set l'. channel_sample_list pc \<noteq> []) \<and>
     (case find (\<lambda>pc. frequency_khz (pc_ch pc) = f) l of
        None \<Rightarrow> r = None \<and> l' = l
      | Some pc \<Rightarrow> r = Some (hd (channel_sample_list pc)) \<and>
                   l' = takeWhile (\<lambda>pc. frequency_khz (pc_ch pc) \<noteq> f) l @
                        (if tl (channel_sample_list pc) = [] then []
                         else [pc\<lparr>channel_sample_list := tl (channel_sample_list pc)\<rparr>]) @
                        tl (dropWhile (\<lambda>pc. frequency_khz (pc_ch pc) \<noteq> f) l) \<and>
                   total_samples l' + 1 = total_samples l)"
proof -
  obtain r l' where a: "pop_loop l f = Inr (r, l')"
    and b: "\<forall>pc\<in>set l'. channel_sample_list pc \<noteq> []"
    and c: "(case find (\<lambda>pc. frequency_khz (pc_ch pc) = f) l of
               None \<Rightarrow> r = None \<and> l' = l
             | Some pc \<Rightarrow> r = Some (hd (channel_sample_list pc)) \<and>
                   l' = takeWhile (\<lambda>pc. frequency_khz (pc_ch pc) \<noteq> f) l @
                        (if tl (channel_sample_list pc) = [] then []
                         else [pc\<lparr>channel_sample_list := tl (channel_sample_list pc)\<rparr>]) @
                        tl (dropWhile (\<lambda>pc. frequency_khz (pc_ch pc) \<noteq> f) l) \<and>
                   total_samples l' + 1 = total_samples l)"
    using pop_loop_spec [OF assms, of f] by blast
  have "pop_channel_measurement l f = Inr (r, l', l' = [])"
    using a by (simp add: pop_channel_measurement_def)
  then show ?thesis using b c by blast
qed

lemma pop_total:
  assumes "\<forall>pc\<in>set l. channel_sample_list pc \<noteq> []"
    and "pop_channel_measurement l f = Inr (r, l', h)"
  shows "(\<forall>pc\<in>set l'. channel_sample_list pc \<noteq> []) \<and> h = (l' = []) \<and>
         total_samples l' + (if r = None then 0 else 1) = total_samples l"
  using pop_channel_measurement_spec [OF assms(1), of f] assms(2)
  by (auto split: option.splits)

lemma replay_requests_halts:
  assumes "\<forall>pc\<in>set l. channel_sample_list pc \<noteq> []"
  shows "\<exists>outs. replay_requests l reqs = Inr outs \<and> length outs = length reqs \<and>
     (\<forall>k<length reqs. snd (outs ! k) =
        (length (filter (\<lambda>out. fst out \<noteq> None) (take (Suc k) outs)) = total_samples l))"
  using assms
proof (induction reqs arbitrary: l)
  case Nil
  then show ?case by simp
next
  case (Cons f fs)
  obtain r l' where p: "pop_channel_measurement l f = Inr (r, l', l' = [])"
    using pop_channel_measurement_spec [OF Cons.prems, of f] by blast
  have wf': "\<forall>pc\<in>set l'. channel_sample_list pc \<noteq> []"
    and tot: "total_samples l' + (if r = None then 0 else 1) = total_samples l"
    using pop_total [OF Cons.prems p] by simp_all
  obtain outs where o: "replay_requests l' fs = Inr outs" "length outs = length fs"
    and h: "\<forall>k<length fs. snd (outs ! k) =
        (length (filter (\<lambda>out. fst out \<noteq> None) (take (Suc k) outs)) = total_samples l')"
    using Cons.IH [OF wf'] by blast
  have run: "replay_requests l (f # fs) = Inr ((r, l' = []) # outs)"
    using p o by simp
  have "snd (((r, l' = []) # outs) ! k) =
        (length (filter (\<lambda>out. fst out \<noteq> None) (take (Suc k) ((r, l' = []) # outs)))
           = total_samples l)" if "k < length (f # fs)" for k
  proof (cases k)
    case 0
    then show ?thesis using tot total_samples_0 [OF wf'] by (auto split: if_splits)
  next
    case (Suc j)
    then have "j < length fs" using that by simp
    then show ?thesis using Suc h tot by (auto split: if_splits)
  qed
  then show ?case using run o(2) by auto
qed

text \<open>
  Claim C5, as amended.  Every queue of the replay source holds at least one measurement
  (\<open>add_channel_measurement_item\<close> opens a queue with one, \<open>pop_channel_measurement\<close>
  removes an emptied one).  A request for a frequency that has a queue pops and returns the
  head of that queue: the source afterwards is the source before with that queue's head
  removed, and the queue itself removed if that was its only measurement; every other queue
  and the order of the queues are unchanged.  A request for any other frequency returns
  null and pops nothing.  A sequence of requests is answered by these pops in order.  A
  request signals the halt exactly when the source is empty after it, that is, when the
  measurements returned so far, this request's included, are all \<open>N\<close> the source held.  So
  if each of \<open>N\<close> requests returns a measurement, the halt is signalled by the \<open>N\<close>-th
  request, the one that returns the last measurement, and by none before it.
\<close>

theorem replay_exhaustion:
  assumes wf: "\<forall>pc\<in>set l. channel_sample_list pc \<noteq> []"
  shows "(\<exists>r l'. pop_channel_measurement l f = Inr (r, l', l' = []) \<and>
            (\<forall>pc\<in>set l'. channel_sample_list pc \<noteq> []) \<and>
            (case find (\<lambda>pc. frequency_khz (pc_ch pc) = f) l of
               None \<Rightarrow> r = None \<and> l' = l
             | Some pc \<Rightarrow> r = Some (hd (channel_sample_list pc)) \<and>
                          l' = takeWhile (\<lambda>pc. frequency_khz (pc_ch pc) \<noteq> f) l @
                               (if tl (channel_sample_list pc) = [] then []
                                else [pc\<lparr>channel_sample_list := tl (channel_sample_list pc)\<rparr>]) @
                               tl (dropWhile (\<lambda>pc. frequency_khz (pc_ch pc) \<noteq> f) l) \<and>
                          total_samples l' + 1 = total_samples l) \<and>
            (\<exists>outs'. replay_requests l' reqs = Inr outs' \<and>
                      replay_requests l (f # reqs) = Inr ((r, l' = []) # outs'))) \<and>
         (\<exists>outs. replay_requests l reqs = Inr outs \<and> length outs = length reqs \<and>
            (\<forall>k<length reqs. snd (outs ! k) =
               (length (filter (\<lambda>out. fst out \<noteq> None) (take (Suc k) outs)) = total_samples l)) \<and>
            (length reqs = total_samples l \<and> (\<forall>out\<in>set outs. fst out \<noteq> None) \<longrightarrow>
               (\<forall>k<length reqs. snd (outs ! k) = (Suc k = total_samples l))))"
proof -
  obtain r l' where p: "pop_channel_measurement l f = Inr (r, l', l' = [])"
    and wf': "\<forall>pc\<in>set l'. channel_sample_list pc \<noteq> []"
    and sp: "(case find (\<lambda>pc. frequency_khz (pc_ch pc) = f) l of
               None \<Rightarrow> r = None \<and> l' = l
             | Some pc \<Rightarrow> r = Some (hd (channel_sample_list pc)) \<and>
                          l' = takeWhile (\<lambda>pc. frequency_khz (pc_ch pc) \<noteq> f) l @
                               (if tl (channel_sample_list pc) = [] then []
                                else [pc\<lparr>channel_sample_list := tl (channel_sample_list pc)\<rparr>]) @
                               tl (dropWhile (\<lambda>pc. frequency_khz (pc_ch pc) \<noteq> f) l) \<and>
                          total_samples l' + 1 = total_samples l)"
    using pop_channel_measurement_spec [OF wf, of f] by blast
  obtain outs' where o': "replay_requests l' reqs = Inr outs'"
    using replay_requests_halts [OF wf', of reqs] by blast
  have run: "replay_requests l (f # reqs) = Inr ((r, l' = []) # outs')"
    using p o' by simp
  have one: "\<exists>r l'. pop_channel_measurement l f = Inr (r, l', l' = []) \<and>
            (\<forall>pc\<in>set l'. channel_sample_list pc \<noteq> []) \<and>
            (case find (\<lambda>pc. frequency_khz (pc_ch pc) = f) l of
               None \<Rightarrow> r = None \<and> l' = l
             | Some pc \<Rightarrow> r = Some (hd (channel_sample_list pc)) \<and>
                          l' = takeWhile (\<lambda>pc. frequency_khz (pc_ch pc) \<noteq> f) l @
                               (if tl (channel_sample_list pc) = [] then []
                                else [pc\<lparr>channel_sample_list := tl (channel_sample_list pc)\<rparr>]) @
                               tl (dropWhile (\<lambda>pc. frequency_khz (pc_ch pc) \<noteq> f) l) \<and>
                          total_samples l' + 1 = total_samples l) \<and>
            (\<exists>outs'. replay_requests l' reqs = Inr outs' \<and>
                      replay_requests l (f # reqs) = Inr ((r, l' = []) # outs'))"
    using p wf' sp o' run by blast
  obtain outs where o: "replay_requests l reqs = Inr outs" "length outs = length reqs"
    and h: "\<forall>k<length reqs. snd (outs ! k) =
        (length (filter (\<lambda>out. fst out \<noteq> None) (take (Suc k) outs)) = total_samples l)"
    using replay_requests_halts [OF wf, of reqs] by blast
  have all: "\<forall>k<length reqs. snd (outs ! k) = (Suc k = total_samples l)"
    if "\<forall>out\<in>set outs. fst out \<noteq> None"
  proof (intro allI impI)
    fix k assume k: "k < length reqs"
    have "\<forall>out\<in>set (take (Suc k) outs). fst out \<noteq> None"
      using that by (meson in_set_takeD)
    then have "filter (\<lambda>out. fst out \<noteq> None) (take (Suc k) outs) = take (Suc k) outs"
      by (simp add: filter_id_conv)
    then have "length (filter (\<lambda>out. fst out \<noteq> None) (take (Suc k) outs)) = Suc k"
      using k o(2) by simp
    then show "snd (outs ! k) = (Suc k = total_samples l)" using h k by simp
  qed
  have two: "\<exists>outs. replay_requests l reqs = Inr outs \<and> length outs = length reqs \<and>
            (\<forall>k<length reqs. snd (outs ! k) =
               (length (filter (\<lambda>out. fst out \<noteq> None) (take (Suc k) outs)) = total_samples l)) \<and>
            (length reqs = total_samples l \<and> (\<forall>out\<in>set outs. fst out \<noteq> None) \<longrightarrow>
               (\<forall>k<length reqs. snd (outs ! k) = (Suc k = total_samples l)))"
    using o h all by blast
  show ?thesis using one two by (rule conjI)
qed

text \<open>Three measurements in two queues: the first request takes the head of the first
  queue and leaves the rest; of three requests the third signals the halt.\<close>

theorem replay_exhaustion_witness:
  "total_samples replay_two = 3 \<and>
   pop_channel_measurement replay_two 920000 =
     Inr (Some meas_a,
          [\<lparr>pc_ch = \<lparr>frequency_khz = 920000, bandwidth_mhz = 1, channel_s1g = 37\<rparr>,
            channel_sample_list = [meas_b]\<rparr>,
           \<lparr>pc_ch = \<lparr>frequency_khz = 922000, bandwidth_mhz = 1, channel_s1g = 41\<rparr>,
            channel_sample_list = [meas_c]\<rparr>],
          False) \<and>
   replay_requests replay_two [920000, 922000, 920000]
     = Inr [(Some meas_a, False), (Some meas_c, False), (Some meas_b, True)]"
  using replay_exhaustion [of replay_two 920000 "[920000, 922000, 920000]"]
  by (simp add: replay_two_def total_samples_def pop_channel_measurement_def)

text \<open>A source with \<open>N = 1\<close> measurement: the first request returns it and signals the
  halt in the same call, not the second request.\<close>

theorem replay_halt_counterexample:
  "total_samples replay_one = 1 \<and>
   replay_requests replay_one [920000, 920000] = Inr [(Some meas_a, True), (None, True)]"
  by (simp add: replay_one_def total_samples_def pop_channel_measurement_def)
subsection \<open>AP-ctrl response parsing\<close>

lemma strtok_r_Nil: "strtok_r [] d = None"
  by (simp add: strtok_r_def)

lemma dropWhile_no_delim:
  "a \<noteq> [] \<Longrightarrow> \<forall>c\<in>set a. c \<notin> set d \<Longrightarrow> dropWhile (\<lambda>c. c \<in> set d) (a @ b) = a @ b"
  by (cases a) simp_all

lemma strtok_r_token_delim:
  assumes "a \<noteq> []" and "\<forall>c\<in>set a. c \<notin> set d" and "x \<in> set d"
  shows "strtok_r (a @ x # b) d = Some (a, Some b)"
proof -
  have d1: "dropWhile (\<lambda>c. c \<in> set d) (a @ x # b) = a @ x # b"
    using assms(1,2) by (rule dropWhile_no_delim)
  have t: "takeWhile (\<lambda>c. c \<notin> set d) (a @ x # b) = a"
    using assms(2,3) by (simp add: takeWhile_append2)
  have d2: "dropWhile (\<lambda>c. c \<notin> set d) (a @ x # b) = x # b"
    using assms(2,3) by (simp add: dropWhile_append2)
  show ?thesis
    unfolding strtok_r_def Let_def d1 t d2 using assms(1) by simp
qed

lemma strtok_r_token_end:
  assumes "a \<noteq> []" and "\<forall>c\<in>set a. c \<notin> set d"
  shows "strtok_r a d = Some (a, None)"
proof -
  have d1: "dropWhile (\<lambda>c. c \<in> set d) a = a"
    using dropWhile_no_delim [OF assms, of "[]"] by simp
  have t: "takeWhile (\<lambda>c. c \<notin> set d) a = a"
    using assms(2) by (simp add: takeWhile_eq_all_conv)
  have d2: "dropWhile (\<lambda>c. c \<notin> set d) a = []"
    using assms(2) by simp
  show ?thesis
    unfolding strtok_r_def Let_def d1 t d2 using assms(1) by simp
qed

lemma kv_line_text_token:
  "kv_line_text (tag, key, val) =
     kv_token tag key @ (case val of None \<Rightarrow> [] | Some v \<Rightarrow> CHR ''='' # v)"
  by (simp add: kv_line_text_def kv_token_def split: option.splits)

lemma kv_token_props:
  assumes "kv_line_ok (tag, key, val)"
  shows "kv_token tag key \<noteq> []"
    and "\<forall>c\<in>set (kv_token tag key). c \<notin> set ''= ''"
    and "\<forall>c\<in>set (kv_token tag key). c \<notin> set [CHR 0x0A]"
  using assms by (auto simp: kv_line_ok_def kv_token_def split: option.splits)

lemma skip_tag_kv_token:
  assumes "kv_line_ok (tag, key, val)"
  shows "skip_tag (kv_token tag key) (kv_token tag key @ NUL # rest) = Inr key"
proof (cases tag)
  case None
  then show ?thesis using assms by (simp add: skip_tag_def kv_line_ok_def kv_token_def)
next
  case (Some n)
  have n: "CHR ''>'' \<notin> set n" and k: "NUL \<notin> set key"
    using assms Some by (simp_all add: kv_line_ok_def)
  have tok: "kv_token tag key @ NUL # rest = (CHR ''<'' # n) @ CHR ''>'' # (key @ NUL # rest)"
    using Some by (simp add: kv_token_def)
  have d: "dropWhile (\<lambda>c. c \<noteq> CHR ''>'') ((CHR ''<'' # n) @ CHR ''>'' # (key @ NUL # rest))
           = CHR ''>'' # (key @ NUL # rest)"
    using n by (subst dropWhile_append2) auto
  have t: "takeWhile (\<lambda>c. c \<noteq> NUL) (key @ NUL # rest) = key"
    using k by (subst takeWhile_append2) auto
  have h: "hd (kv_token tag key) = CHR ''<''" using Some by (simp add: kv_token_def)
  have m: "CHR ''>'' \<in> set (kv_token tag key @ NUL # rest)" unfolding tok by simp
  show ?thesis
    unfolding skip_tag_def if_P [OF h] if_P [OF m] unfolding tok d by (simp add: t)
qed

lemma parse_item_kv_line:
  assumes ok: "kv_line_ok l"
  shows "parse_item (kv_line_text l) mem_after mmsm_data_item_alloc = Inr (Some (kv_line_item l))"
proof -
  obtain tag key val where l: "l = (tag, key, val)" by (cases l)
  note tp = kv_token_props [OF ok [unfolded l]]
  note key = skip_tag_kv_token [OF ok [unfolded l]]
  show ?thesis
  proof (cases val)
    case None
    have st: "strtok_r (kv_line_text l) ''= '' = Some (kv_token tag key, None)"
      unfolding l kv_line_text_token None using tp(1,2) by (simp add: strtok_r_token_end)
    show ?thesis
      unfolding parse_item_def st
      by (simp add: Let_def key save_ptr_string_def strtok_r_Nil l None
          kv_line_item_def mmsm_data_item_alloc_def mmsm_data_item_set_key_str_def)
  next
    case (Some v)
    have v: "v \<noteq> []" "\<forall>c\<in>set v. c \<notin> set ''=''"
      using ok Some by (auto simp: l kv_line_ok_def)
    have st: "strtok_r (kv_line_text l) ''= '' = Some (kv_token tag key, Some v)"
      unfolding l kv_line_text_token Some using tp(1,2)
      by (simp add: strtok_r_token_delim)
    have sv: "strtok_r v ''='' = Some (v, None)"
      using v by (rule strtok_r_token_end)
    show ?thesis
      unfolding parse_item_def st
      by (simp add: Let_def key save_ptr_string_def sv l Some
          kv_line_item_def mmsm_data_item_alloc_def mmsm_data_item_set_key_str_def
          mmsm_data_item_set_val_string_def)
  qed
qed

lemma kv_line_text_props:
  assumes "kv_line_ok l"
  shows "kv_line_text l \<noteq> []" and "\<forall>c\<in>set (kv_line_text l). c \<notin> set [CHR 0x0A]"
  using assms
  by (auto simp: kv_line_ok_def kv_line_text_def split: option.splits prod.splits)

lemma parse_output_loop_Nil: "parse_output_loop [] = Inr (Some [])"
  by (subst parse_output_loop.simps) (simp add: strtok_r_Nil)

lemma parse_output_loop_line:
  assumes "kv_line_ok l"
  shows "parse_output_loop (kv_line_text l @ CHR 0x0A # rest) =
         (case parse_output_loop rest of
            Inl e \<Rightarrow> Inl e
          | Inr None \<Rightarrow> Inr None
          | Inr (Some items) \<Rightarrow> Inr (Some (kv_line_item l # items)))"
proof -
  have st: "strtok_r (kv_line_text l @ CHR 0x0A # rest) [CHR 0x0A] = Some (kv_line_text l, Some rest)"
    using kv_line_text_props [OF assms] by (intro strtok_r_token_delim) simp_all
  show ?thesis
    by (subst parse_output_loop.simps)
       (simp add: st parse_item_kv_line [OF assms] save_ptr_string_def)
qed

lemma parse_output_loop_kv_lines:
  assumes "\<forall>l\<in>set ls. kv_line_ok l"
  shows "parse_output_loop (concat (map (\<lambda>l. kv_line_text l @ [CHR 0x0A]) ls)) =
         Inr (Some (map kv_line_item ls))"
  using assms
proof (induction ls)
  case Nil
  then show ?case by (simp add: parse_output_loop_Nil)
next
  case (Cons l ls)
  have "kv_line_ok l" using Cons.prems by simp
  then show ?case using Cons by (simp add: parse_output_loop_line)
qed

lemma parse_item_second_equals:
  assumes ok: "kv_line_ok (tag, key, Some v)"
  shows "parse_item (kv_line_text (tag, key, Some v) @ CHR ''='' # w) mem_after mmsm_data_item_alloc
         = Inr (Some (kv_line_item (tag, key, Some v)))"
proof -
  note tp = kv_token_props [OF ok]
  have v: "v \<noteq> []" "\<forall>c\<in>set v. c \<notin> set ''=''"
    using ok by (auto simp: kv_line_ok_def)
  have st: "strtok_r (kv_line_text (tag, key, Some v) @ CHR ''='' # w) ''= ''
            = Some (kv_token tag key, Some (v @ CHR ''='' # w))"
    unfolding kv_line_text_token using tp(1,2) strtok_r_token_delim [of "kv_token tag key" "''= ''" "CHR ''=''" "v @ CHR ''='' # w"]
    by simp
  have sv: "strtok_r (v @ CHR ''='' # w) ''='' = Some (v, Some w)"
    using v by (intro strtok_r_token_delim) simp_all
  show ?thesis
    unfolding parse_item_def st
    by (simp add: Let_def skip_tag_kv_token [OF ok] save_ptr_string_def sv
        kv_line_item_def mmsm_data_item_alloc_def mmsm_data_item_set_key_str_def
        mmsm_data_item_set_val_string_def)
qed

lemma parse_item_space:
  assumes ok: "kv_line_ok (tag, key, Some v)"
  shows "parse_item (kv_token tag key @ CHR '' '' # v) mem_after mmsm_data_item_alloc
         = Inr (Some (kv_line_item (tag, key, Some v)))"
proof -
  note tp = kv_token_props [OF ok]
  have v: "v \<noteq> []" "\<forall>c\<in>set v. c \<notin> set ''=''"
    using ok by (auto simp: kv_line_ok_def)
  have st: "strtok_r (kv_token tag key @ CHR '' '' # v) ''= '' = Some (kv_token tag key, Some v)"
    using tp(1,2) by (intro strtok_r_token_delim) simp_all
  have sv: "strtok_r v ''='' = Some (v, None)"
    using v by (rule strtok_r_token_end)
  show ?thesis
    unfolding parse_item_def st
    by (simp add: Let_def skip_tag_kv_token [OF ok] save_ptr_string_def sv
        kv_line_item_def mmsm_data_item_alloc_def mmsm_data_item_set_key_str_def
        mmsm_data_item_set_val_string_def)
qed

lemma is_key_char_eq: "is_key_char = (\<lambda>c. c \<notin> set ''= '')"
  by (rule ext) (simp add: is_key_char_def)

lemma strtok_r_first_run:
  "strtok_r s delim =
     (if first_run (\<lambda>c. c \<notin> set delim) s = [] then None
      else Some (first_run (\<lambda>c. c \<notin> set delim) s,
                 case after_first_run (\<lambda>c. c \<notin> set delim) s of
                   [] \<Rightarrow> None
                 | _ # rest \<Rightarrow> Some rest))"
proof -
  let ?s1 = "dropWhile (\<lambda>c. c \<in> set delim) s"
  have "takeWhile (\<lambda>c. c \<notin> set delim) ?s1 = [] \<longleftrightarrow> ?s1 = []"
  proof (cases ?s1)
    case Nil
    show ?thesis unfolding Nil by simp
  next
    case (Cons c cs)
    have "\<not> c \<in> set delim" using hd_dropWhile [of "\<lambda>c. c \<in> set delim" s] Cons by simp
    then show ?thesis using Cons by simp
  qed
  then show ?thesis
    by (simp add: strtok_r_def first_run_def after_first_run_def Let_def)
qed

lemma save_ptr_string_case:
  "save_ptr_string (case xs of [] \<Rightarrow> None | _ # rest \<Rightarrow> Some rest) = drop 1 xs"
  by (cases xs) (simp_all add: save_ptr_string_def)

lemma first_run_subset: "set (first_run P s) \<subseteq> set s"
  unfolding first_run_def
  by (meson set_takeWhileD set_dropWhileD subsetI)

lemma skip_tag_token:
  assumes "NUL \<notin> set token" and "token \<noteq> []"
    and "hd token \<noteq> CHR ''<'' \<or> CHR ''>'' \<in> set token"
  shows "skip_tag token (token @ NUL # rest) = Inr (strip_tag token)"
proof (cases "hd token = CHR ''<''")
  case False
  then show ?thesis by (simp add: skip_tag_def strip_tag_def)
next
  case True
  then have gt: "CHR ''>'' \<in> set token" using assms(3) by simp
  let ?d = "dropWhile (\<lambda>c. c \<noteq> CHR ''>'') token"
  have dne: "?d \<noteq> []" using gt by simp
  have d: "dropWhile (\<lambda>c. c \<noteq> CHR ''>'') (token @ NUL # rest) = ?d @ NUL # rest"
    using gt by (simp add: dropWhile_append1)
  have tl_d: "tl (?d @ NUL # rest) = tl ?d @ NUL # rest" using dne by simp
  have n: "NUL \<notin> set (tl ?d)"
  proof
    assume "NUL \<in> set (tl ?d)"
    then have "NUL \<in> set ?d" using dne by (rule list.set_sel(2) [rotated])
    then have "NUL \<in> set token" by (rule set_dropWhileD)
    then show False using assms(1) by simp
  qed
  have t: "takeWhile (\<lambda>c. c \<noteq> NUL) (tl ?d @ NUL # rest) = tl ?d"
    using n by (subst takeWhile_append2) auto
  have m: "CHR ''>'' \<in> set (token @ NUL # rest)" using gt by simp
  show ?thesis
    unfolding skip_tag_def if_P [OF True] if_P [OF m] d tl_d t
    using True assms(2) by (simp add: strip_tag_def drop_Suc)
qed

lemma parse_item_line:
  assumes nul: "NUL \<notin> set line" and closed: "line_tag_closed line"
  shows "parse_item line mem_after mmsm_data_item_alloc =
         (if line_key_token line = [] then Inr None else Inr (Some (line_item line)))"
proof (cases "line_key_token line = []")
  case True
  have "first_run (\<lambda>c. c \<notin> set ''= '') line = line_key_token line"
    by (simp only: line_key_token_def is_key_char_eq)
  then have "strtok_r line ''= '' = None"
    using True unfolding strtok_r_first_run by simp
  then show ?thesis using True by (simp add: parse_item_def)
next
  case False
  let ?tok = "line_key_token line"
  let ?aft = "after_first_run is_key_char line"
  have fr: "first_run (\<lambda>c. c \<notin> set ''= '') line = ?tok"
    and ar: "after_first_run (\<lambda>c. c \<notin> set ''= '') line = ?aft"
    by (simp_all only: line_key_token_def is_key_char_eq)
  have st: "strtok_r line ''= '' =
            Some (?tok, case ?aft of [] \<Rightarrow> None | _ # rest \<Rightarrow> Some rest)"
    using False unfolding strtok_r_first_run fr ar by simp
  have tn: "NUL \<notin> set ?tok"
    using nul first_run_subset [of is_key_char line] by (auto simp: line_key_token_def)
  have tc: "hd ?tok \<noteq> CHR ''<'' \<or> CHR ''>'' \<in> set ?tok"
    using closed False by (simp add: line_tag_closed_def)
  have key: "skip_tag ?tok (?tok @ NUL # rest) = Inr (strip_tag ?tok)" for rest
    using tn False tc by (rule skip_tag_token)
  have fv: "first_run (\<lambda>c. c \<notin> set ''='') (drop 1 ?aft) = line_value line"
    by (simp add: line_value_def first_run_def)
  have sv: "strtok_r (drop 1 ?aft) ''='' =
            (if line_value line = [] then None
             else Some (line_value line,
                        case after_first_run (\<lambda>c. c \<notin> set ''='') (drop 1 ?aft) of
                          [] \<Rightarrow> None | _ # rest \<Rightarrow> Some rest))"
    unfolding strtok_r_first_run fv by simp
  show ?thesis
    unfolding parse_item_def st
    using False
    by (simp add: Let_def key save_ptr_string_case sv [unfolded One_nat_def] line_item_def
        mmsm_data_item_alloc_def mmsm_data_item_set_key_str_def
        mmsm_data_item_set_val_string_def del: drop_Suc_Cons)
qed

lemma lines_of_no_newline: "CHR 0x0A \<notin> set l \<Longrightarrow> lines_of l = [l]"
  by (induction l) auto

lemma lines_of_append_newline:
  "CHR 0x0A \<notin> set l \<Longrightarrow> lines_of (l @ CHR 0x0A # rest) = l # lines_of rest"
  by (induction l) auto

lemma response_lines_Nil: "response_lines [] = []"
  by (simp add: response_lines_def)

lemma response_lines_dropWhile:
  "response_lines (dropWhile (\<lambda>c. c = CHR 0x0A) s) = response_lines s"
  by (induction s) (simp_all add: response_lines_def)

lemma response_lines_token:
  assumes "s \<noteq> []" and "hd s \<noteq> CHR 0x0A"
  shows "response_lines s =
         takeWhile (\<lambda>c. c \<noteq> CHR 0x0A) s #
         response_lines (drop 1 (dropWhile (\<lambda>c. c \<noteq> CHR 0x0A) s))"
proof -
  let ?t = "takeWhile (\<lambda>c. c \<noteq> CHR 0x0A) s"
  let ?d = "dropWhile (\<lambda>c. c \<noteq> CHR 0x0A) s"
  have s: "?t @ ?d = s" by (rule takeWhile_dropWhile_id)
  have tne: "?t \<noteq> []" using assms by (cases s) simp_all
  have tn: "CHR 0x0A \<notin> set ?t" by (auto dest: set_takeWhileD)
  show ?thesis
  proof (cases ?d)
    case Nil
    have ts: "?t = s" using s unfolding Nil by (simp only: append_Nil2)
    have ns: "CHR 0x0A \<notin> set s" using tn unfolding ts .
    have "response_lines s = [s]"
      using lines_of_no_newline [OF ns] assms(1) by (simp add: response_lines_def)
    then show ?thesis unfolding Nil ts by (simp add: response_lines_Nil)
  next
    case (Cons x r)
    have "x = CHR 0x0A" using hd_dropWhile [of "\<lambda>c. c \<noteq> CHR 0x0A" s] Cons by simp
    then have "?t @ CHR 0x0A # r = s" using s unfolding Cons by (simp only:)
    then have "lines_of s = ?t # lines_of r" using lines_of_append_newline [OF tn, of r] by simp
    then have "response_lines s = ?t # response_lines r"
      using tne by (simp add: response_lines_def)
    then show ?thesis unfolding Cons by simp
  qed
qed

lemma parse_output_loop_lines:
  assumes "NUL \<notin> set buf" and "\<forall>l\<in>set (response_lines buf). line_tag_closed l"
  shows "parse_output_loop buf =
         (if \<forall>l\<in>set (response_lines buf). line_key_token l \<noteq> []
          then Inr (Some (map line_item (response_lines buf))) else Inr None)"
  using assms
proof (induction buf rule: length_induct)
  case (1 buf)
  let ?s1 = "dropWhile (\<lambda>c. c = CHR 0x0A) buf"
  let ?tok = "takeWhile (\<lambda>c. c \<noteq> CHR 0x0A) ?s1"
  let ?d = "dropWhile (\<lambda>c. c \<noteq> CHR 0x0A) ?s1"
  have fr: "first_run (\<lambda>c. c \<notin> set [CHR 0x0A]) buf = ?tok"
    and ar: "after_first_run (\<lambda>c. c \<notin> set [CHR 0x0A]) buf = ?d"
    by (simp_all add: first_run_def after_first_run_def)
  have st: "strtok_r buf [CHR 0x0A] =
            (if ?tok = [] then None
             else Some (?tok, case ?d of [] \<Rightarrow> None | _ # rest \<Rightarrow> Some rest))"
    unfolding strtok_r_first_run fr ar by simp
  show ?case
  proof (cases "?s1 = []")
    case True
    have "response_lines buf = []"
      using response_lines_dropWhile [of buf] unfolding True by (simp add: response_lines_Nil)
    moreover have "strtok_r buf [CHR 0x0A] = None" unfolding st True by simp
    ultimately show ?thesis by (subst parse_output_loop.simps) simp
  next
    case False
    have hd1: "hd ?s1 \<noteq> CHR 0x0A" using hd_dropWhile [OF False] by simp
    have tne: "?tok \<noteq> []" using False hd1 by (cases ?s1) simp_all
    let ?rest = "drop 1 ?d"
    have rl: "response_lines buf = ?tok # response_lines ?rest"
      using response_lines_token [OF False hd1] response_lines_dropWhile [of buf] by simp
    have "length ?rest \<le> length ?d" by simp
    also have "\<dots> \<le> length ?s1" by (rule length_dropWhile_le)
    finally have l1: "length ?rest \<le> length ?s1" .
    have "length ?rest < length buf"
    proof (cases ?d)
      case Nil
      have "0 < length ?s1" using False by (rule length_greater_0_conv [THEN iffD2])
      also have "\<dots> \<le> length buf" by (rule length_dropWhile_le)
      finally show ?thesis unfolding Nil by simp
    next
      case (Cons x r)
      have "length (x # r) \<le> length ?s1" unfolding Cons [symmetric] by (rule length_dropWhile_le)
      also have "\<dots> \<le> length buf" by (rule length_dropWhile_le)
      finally show ?thesis unfolding Cons by simp
    qed
    moreover have rn: "NUL \<notin> set ?rest"
      using "1.prems"(1) by (meson in_set_dropD set_dropWhileD)
    moreover have rc: "\<forall>l\<in>set (response_lines ?rest). line_tag_closed l"
      using "1.prems"(2) unfolding rl by simp
    ultimately have ih: "parse_output_loop ?rest =
         (if \<forall>l\<in>set (response_lines ?rest). line_key_token l \<noteq> []
          then Inr (Some (map line_item (response_lines ?rest))) else Inr None)"
      using "1.IH" by blast
    have tn: "NUL \<notin> set ?tok"
      using "1.prems"(1) by (meson set_takeWhileD set_dropWhileD)
    have tc: "line_tag_closed ?tok" using "1.prems"(2) unfolding rl by simp
    have pi: "parse_item ?tok mem mmsm_data_item_alloc =
              (if line_key_token ?tok = [] then Inr None else Inr (Some (line_item ?tok)))" for mem
      using tn tc by (rule parse_item_line)
    have st': "strtok_r buf [CHR 0x0A] =
               Some (?tok, case ?d of [] \<Rightarrow> None | _ # rest \<Rightarrow> Some rest)"
      unfolding st using tne by simp
    have sp: "save_ptr_string (case ?d of [] \<Rightarrow> None | _ # rest \<Rightarrow> Some rest) = ?rest"
      by (rule save_ptr_string_case)
    show ?thesis
      by (subst parse_output_loop.simps)
         (simp only: st' option.case prod.case pi sp ih rl, simp)
  qed
qed

lemma parse_output_lines:
  assumes "NUL \<notin> set buf" and "\<forall>l\<in>set (response_lines buf). line_tag_closed l"
  shows "parse_output buf =
              (if \<forall>l\<in>set (response_lines buf). line_key_token l \<noteq> []
               then Inr (map line_item (response_lines buf)) else Inr [])"
  unfolding parse_output_def parse_output_loop_lines [OF assms] by simp

text \<open>
  Claim C8, as amended.  The parser splits the response text on newline and skips empty
  lines; the last line need not end with a newline.  In each line the key token is the
  first run of characters other than \<open>=\<close> and space (leading \<open>=\<close> and spaces are
  skipped), a key token that starts with \<open><\<close> loses everything up to its first \<open>>\<close>,
  and the value is the first run of characters other than \<open>=\<close> behind the character that
  ended the key token; a line without such a run is key-only.  For a text without NUL in
  which every key token that starts with \<open><\<close> holds a \<open>>\<close>, the result is one sibling
  per non-empty line, in order, unless some non-empty line consists of \<open>=\<close> and spaces
  only: then the result is the null tree.  In particular, lines of the form
  \<open><N>KEY=VALUE\<close>, tag and value optional (\<open>kv_line_ok\<close>), give the sibling keyed
  \<open>KEY\<close> carrying \<open>VALUE\<close> as a NUL-terminated string, key-only without a value.  The
  line is not split once on \<open>=\<close>: the value ends at the next \<open>=\<close>, so what follows a
  second \<open>=\<close> is dropped, and a space ends the key as \<open>=\<close> does, so a line without
  \<open>=\<close> still has a value when a space follows its key.
\<close>

theorem parse_output_kv_lines:
  assumes "\<forall>l\<in>set ls. kv_line_ok l"
  shows "(NUL \<notin> set buf \<and> (\<forall>l\<in>set (response_lines buf). line_tag_closed l) \<longrightarrow>
            parse_output buf =
              (if \<forall>l\<in>set (response_lines buf). line_key_token l \<noteq> []
               then Inr (map line_item (response_lines buf)) else Inr [])) \<and>
         parse_output (concat (map (\<lambda>l. kv_line_text l @ [CHR 0x0A]) ls))
           = Inr (map kv_line_item ls) \<and>
         (kv_line_ok (tag, key, Some v) \<longrightarrow>
            parse_item (kv_line_text (tag, key, Some v) @ CHR ''='' # w) mem_after
                mmsm_data_item_alloc
              = Inr (Some (kv_line_item (tag, key, Some v))) \<and>
            parse_item (kv_token tag key @ CHR '' '' # v) mem_after mmsm_data_item_alloc
              = Inr (Some (kv_line_item (tag, key, Some v))))"
proof (intro conjI impI)
  assume "NUL \<notin> set buf \<and> (\<forall>l\<in>set (response_lines buf). line_tag_closed l)"
  then show "parse_output buf =
              (if \<forall>l\<in>set (response_lines buf). line_key_token l \<noteq> []
               then Inr (map line_item (response_lines buf)) else Inr [])"
    using parse_output_lines by blast
next
  show "parse_output (concat (map (\<lambda>l. kv_line_text l @ [CHR 0x0A]) ls))
           = Inr (map kv_line_item ls)"
    using assms by (simp add: parse_output_def parse_output_loop_kv_lines)
next
  assume "kv_line_ok (tag, key, Some v)"
  then show "parse_item (kv_line_text (tag, key, Some v) @ CHR ''='' # w) mem_after
                mmsm_data_item_alloc
              = Inr (Some (kv_line_item (tag, key, Some v)))"
    by (rule parse_item_second_equals)
next
  assume "kv_line_ok (tag, key, Some v)"
  then show "parse_item (kv_token tag key @ CHR '' '' # v) mem_after mmsm_data_item_alloc
              = Inr (Some (kv_line_item (tag, key, Some v)))"
    by (rule parse_item_space)
qed

text \<open>Scenario S1: three siblings keyed \<open>bssid\<close>, \<open>freq\<close> and \<open>flags\<close>.  A text with
  empty lines, leading delimiters, a tag and no final newline: three siblings.  A text with
  a line of delimiters only: the null tree.\<close>

theorem parse_output_S1_witness:
  "parse_output text_S1 =
     Inr [Data_item (Key_String ''bssid'') (Some (''02:00:00:00:00:00'' @ [NUL])) [],
          Data_item (Key_String ''freq'') (Some (''2412'' @ [NUL])) [],
          Data_item (Key_String ''flags'') (Some (''[AUTH][ASSOC]'' @ [NUL])) []] \<and>
   parse_output text_mixed =
     Inr [Data_item (Key_String ''state'') (Some (''ENABLED'' @ [NUL])) [],
          Data_item (Key_String ''ssid'') (Some (''halow'' @ [NUL])) [],
          Data_item (Key_String ''AP-ENABLED'') None []] \<and>
   parse_output text_blank_key = Inr []"
proof -
  have ok: "\<forall>l\<in>set lines_S1. kv_line_ok l"
    by (simp add: lines_S1_def kv_line_ok_def NUL_def)
  have same: "concat (map (\<lambda>l. kv_line_text l @ [CHR 0x0A]) lines_S1) = text_S1"
    by (simp add: lines_S1_def text_S1_def kv_line_text_def)
  have "parse_output text_S1 = Inr (map kv_line_item lines_S1)"
    using parse_output_kv_lines [OF ok, THEN conjunct2, THEN conjunct1] by (simp only: same)
  then have s1: "parse_output text_S1 =
     Inr [Data_item (Key_String ''bssid'') (Some (''02:00:00:00:00:00'' @ [NUL])) [],
          Data_item (Key_String ''freq'') (Some (''2412'' @ [NUL])) [],
          Data_item (Key_String ''flags'') (Some (''[AUTH][ASSOC]'' @ [NUL])) []]"
    by (simp add: lines_S1_def kv_line_item_def)
  have m1: "NUL \<notin> set text_mixed" by code_simp
  have m2: "\<forall>l\<in>set (response_lines text_mixed). line_tag_closed l" by code_simp
  have m3: "\<forall>l\<in>set (response_lines text_mixed). line_key_token l \<noteq> []" by code_simp
  have m4: "map line_item (response_lines text_mixed) =
     [Data_item (Key_String ''state'') (Some (''ENABLED'' @ [NUL])) [],
      Data_item (Key_String ''ssid'') (Some (''halow'' @ [NUL])) [],
      Data_item (Key_String ''AP-ENABLED'') None []]"
    by code_simp
  have "parse_output text_mixed =
          (if \<forall>l\<in>set (response_lines text_mixed). line_key_token l \<noteq> []
           then Inr (map line_item (response_lines text_mixed)) else Inr [])"
    using parse_output_kv_lines [OF ok, THEN conjunct1, of text_mixed] m1 m2 by blast
  then have "parse_output text_mixed = Inr (map line_item (response_lines text_mixed))"
    by (simp only: if_P [OF m3])
  then have mixed: "parse_output text_mixed =
     Inr [Data_item (Key_String ''state'') (Some (''ENABLED'' @ [NUL])) [],
          Data_item (Key_String ''ssid'') (Some (''halow'' @ [NUL])) [],
          Data_item (Key_String ''AP-ENABLED'') None []]"
    by (simp only: m4)
  have b1: "NUL \<notin> set text_blank_key" by code_simp
  have b2: "\<forall>l\<in>set (response_lines text_blank_key). line_tag_closed l" by code_simp
  have b3: "\<not> (\<forall>l\<in>set (response_lines text_blank_key). line_key_token l \<noteq> [])" by code_simp
  have "parse_output text_blank_key =
          (if \<forall>l\<in>set (response_lines text_blank_key). line_key_token l \<noteq> []
           then Inr (map line_item (response_lines text_blank_key)) else Inr [])"
    using parse_output_kv_lines [OF ok, THEN conjunct1, of text_blank_key] b1 b2 by blast
  then have blank: "parse_output text_blank_key = Inr []"
    by (simp only: if_not_P [OF b3])
  show ?thesis using s1 mixed blank by (intro conjI)
qed

text \<open>A value with a second \<open>=\<close> is cut there, and a line without \<open>=\<close> gets a value
  from what follows a space.\<close>

theorem parse_output_split_counterexample:
  "parse_output (''ssid=a=b'' @ [CHR 0x0A])
     = Inr [Data_item (Key_String ''ssid'') (Some (''a'' @ [NUL])) []] \<and>
   parse_output (''AP-STA-CONNECTED 02:00:00:00:00:01'' @ [CHR 0x0A])
     = Inr [Data_item (Key_String ''AP-STA-CONNECTED'') (Some (''02:00:00:00:00:01'' @ [NUL])) []]"
  by code_simp
subsection \<open>Flag predicate\<close>

lemma strstr_iff_sublist: "strstr haystack needle = sublist needle haystack"
  by (induction haystack) (simp_all add: sublist_Cons_right)

lemma c_string_terminated: "NUL \<notin> set v \<Longrightarrow> c_string (v @ NUL # junk) = Inr v"
proof -
  assume n: "NUL \<notin> set v"
  have "takeWhile (\<lambda>c. c \<noteq> NUL) (v @ NUL # junk) = v"
    using n by (subst takeWhile_append2) auto
  then show ?thesis by (simp add: c_string_def)
qed

lemma flag_set_when_present:
  assumes "mmsm_find_value_by_key result key = Some (v @ [NUL])"
    and "NUL \<notin> set v" and "length flag \<le> 1021"
  shows "mmsm_is_flag_set_in result key flag = Inr (sublist (''['' @ flag @ '']'') v)"
  using assms c_string_terminated [of v "[]"]
  by (simp add: mmsm_is_flag_set_in_def strstr_iff_sublist)

text \<open>
  Claim C9.  When the key is present with a string value and the flag has at most 1021
  characters, \<open>mmsm_is_flag_set_in\<close> is the test whether \<open>[flag]\<close> is a substring of
  the value (\<open>flag_set_when_present\<close>).  When no sibling has the key, the null pointer
  from \<open>mmsm_find_value_by_key\<close> goes to \<open>strstr\<close>: on a \<open>STATUS\<close> response without a
  \<open>flags\<close> line the call does not return false, it dereferences null.
\<close>

theorem flag_set_missing_key:
  "parse_output status_without_flags =
     Inr [Data_item (Key_String ''state'') (Some (''ENABLED'' @ [NUL])) [],
          Data_item (Key_String ''freq'') (Some (''5180'' @ [NUL])) []] \<and>
   mmsm_is_flag_set_in
     [Data_item (Key_String ''state'') (Some (''ENABLED'' @ [NUL])) [],
      Data_item (Key_String ''freq'') (Some (''5180'' @ [NUL])) []] ''flags'' ''AUTH''
     = Inl Null_deref"
  unfolding status_without_flags_def by code_simp

text \<open>Scenario S1: \<open>AUTH\<close> is set, \<open>CONNECTED\<close> is not.\<close>

lemma flag_set_S1:
  "mmsm_is_flag_set_in
     [Data_item (Key_String ''bssid'') (Some (''02:00:00:00:00:00'' @ [NUL])) [],
      Data_item (Key_String ''freq'') (Some (''2412'' @ [NUL])) [],
      Data_item (Key_String ''flags'') (Some (''[AUTH][ASSOC]'' @ [NUL])) []] ''flags'' ''AUTH''
     = Inr True \<and>
   mmsm_is_flag_set_in
     [Data_item (Key_String ''bssid'') (Some (''02:00:00:00:00:00'' @ [NUL])) [],
      Data_item (Key_String ''freq'') (Some (''2412'' @ [NUL])) [],
      Data_item (Key_String ''flags'') (Some (''[AUTH][ASSOC]'' @ [NUL])) []] ''flags'' ''CONNECTED''
     = Inr False"
  by code_simp
subsection \<open>Generic-netlink argument processing\<close>

lemma nla_distinct:
  "NLA_U8 \<noteq> NLA_U16" "NLA_U8 \<noteq> NLA_U32" "NLA_U8 \<noteq> NLA_U64" "NLA_U8 \<noteq> NLA_STRING"
  "NLA_U8 \<noteq> NLA_BINARY" "NLA_U16 \<noteq> NLA_U32" "NLA_U16 \<noteq> NLA_U64" "NLA_U16 \<noteq> NLA_STRING"
  "NLA_U16 \<noteq> NLA_BINARY" "NLA_U32 \<noteq> NLA_U64" "NLA_U32 \<noteq> NLA_STRING" "NLA_U32 \<noteq> NLA_BINARY"
  "NLA_U64 \<noteq> NLA_STRING" "NLA_U64 \<noteq> NLA_BINARY" "NLA_STRING \<noteq> NLA_BINARY"
  "NLA_FLAG \<noteq> NLA_U8" "NLA_FLAG \<noteq> NLA_U16" "NLA_FLAG \<noteq> NLA_U32" "NLA_FLAG \<noteq> NLA_U64"
  "NLA_FLAG \<noteq> NLA_STRING" "NLA_FLAG \<noteq> NLA_BINARY"
  by (simp_all add: NLA_U8_def NLA_U16_def NLA_U32_def NLA_U64_def NLA_STRING_def NLA_BINARY_def
      NLA_FLAG_def)

lemma process_attrs_attr:
  assumes "attr_ok a"
  shows "process_attrs (attr_args a @ rest) =
         (if attr_supported a then chain_item (attr_node a) (process_attrs rest) else Inr None)"
proof (cases a)
  case (Pair attr_id v)
  have id: "attr_id \<noteq> - 1" using assms Pair by (simp add: attr_ok_def)
  show ?thesis
  proof (cases v)
    case (Attr_string s)
    then have "NUL \<notin> set s" using assms Pair by (simp add: attr_ok_def)
    then show ?thesis
      using id Pair Attr_string
      by (simp add: attr_args_def attr_supported_def attr_node_def nla_distinct
          nla_distinct [symmetric] c_string_terminated [of s "[]"] Let_def
          mmsm_data_item_set_val_string_def mmsm_data_item_set_key_u32_def
          mmsm_data_item_alloc_def)
  next
    case (Attr_binary len mem)
    then have "unat len \<le> length mem" using assms Pair by (simp add: attr_ok_def)
    then show ?thesis
      using id Pair Attr_binary
      by (simp add: attr_args_def attr_supported_def attr_node_def nla_distinct
          nla_distinct [symmetric] Let_def mmsm_data_item_set_key_u32_def
          mmsm_data_item_alloc_def)
  next
    case (Attr_other tag)
    then have "tag \<notin> {NLA_U8, NLA_U16, NLA_U32, NLA_U64, NLA_STRING, NLA_BINARY}"
      using assms Pair by (simp add: attr_ok_def)
    then show ?thesis
      using id Pair Attr_other
      by (cases rest rule: process_attrs.cases)
         (simp_all add: attr_args_def attr_supported_def Let_def)
  qed (use id Pair in \<open>simp_all add: attr_args_def attr_supported_def attr_node_def nla_distinct
          nla_distinct [symmetric] Let_def PACK_VA_ARG_def mmsm_data_item_set_key_u32_def
          mmsm_data_item_alloc_def\<close>)
qed

lemma process_attrs_attrs:
  assumes "\<forall>a\<in>set attrs. attr_ok a"
  shows "process_attrs (concat (map attr_args attrs) @ [VA_int (- 1)]) =
         (if \<forall>a\<in>set attrs. attr_supported a then Inr (Some (map attr_node attrs)) else Inr None)"
  using assms
proof (induction attrs)
  case Nil
  then show ?case by simp
next
  case (Cons a attrs)
  have "attr_ok a" using Cons.prems by simp
  then show ?case using Cons by (simp add: process_attrs_attr chain_item_def)
qed

text \<open>
  Claim C6, as amended.  For an argument vector that follows the schema, with every
  attribute's arguments as its tag announces, \<open>backend_nl80211_process_request_args\<close>
  accepts the six tags U8, U16, U32, U64, STRING and BINARY: when every attribute has one of
  them the result is the request tree, the command node holding the flags followed by one
  node for each attribute, in order.  The result is the null request tree exactly when some
  attribute has a tag outside these six.  FLAG is outside: an attribute tagged
  \<open>NLA_FLAG\<close> gives the null request tree whatever follows it.
\<close>

theorem process_request_args_tags:
  "((\<forall>a\<in>set attrs. attr_ok a) \<longrightarrow>
      backend_nl80211_process_request_args (request_args cmd flags attrs) =
        (if \<forall>a\<in>set attrs. attr_supported a
         then Inr (Data_item (Key_U32 cmd) (Some (host_bytes 2 (sint flags))) []
                     # map attr_node attrs)
         else Inr [])) \<and>
   (attr_id \<noteq> - 1 \<longrightarrow>
      backend_nl80211_process_request_args
        (VA_int cmd' # VA_int flags' # VA_int attr_id # VA_int NLA_FLAG # rest) = Inr [])"
  by (simp add: backend_nl80211_process_request_args_def request_args_def process_attrs_attrs
      nla_distinct Let_def PACK_VA_ARG_def mmsm_data_item_set_key_u32_def
      mmsm_data_item_alloc_def)

theorem process_request_args_vendor_witness:
  "backend_nl80211_process_request_args (request_args 103 0 attrs_vendor) =
     Inr [Data_item (Key_U32 103) (Some [CHR 0x00, CHR 0x00]) [],
          Data_item (Key_U32 3) (Some [CHR 0x02, CHR 0x00, CHR 0x00, CHR 0x00]) [],
          Data_item (Key_U32 197) (Some [CHR 0x01, CHR 0x00]) []] \<and>
   backend_nl80211_process_request_args
     [VA_int 103, VA_int 0, VA_int 3, VA_int NLA_U32, VA_int 2,
      VA_int 197, VA_int NLA_FLAG, VA_int (- 1)] = Inr [] \<and>
   backend_nl80211_process_request_args
     [VA_int 103, VA_int 0, VA_int 197, VA_int NLA_FLAG, VA_int 1, VA_int (- 1)] = Inr []"
proof -
  have ok: "\<forall>a\<in>set attrs_vendor. attr_ok a"
    by (simp add: attrs_vendor_def attr_ok_def)
  have sup: "\<forall>a\<in>set attrs_vendor. attr_supported a"
    by (simp add: attrs_vendor_def attr_supported_def)
  have nodes: "Data_item (Key_U32 103) (Some (host_bytes 2 (sint (0 :: s32)))) []
                 # map attr_node attrs_vendor =
               [Data_item (Key_U32 103) (Some [CHR 0x00, CHR 0x00]) [],
                Data_item (Key_U32 3) (Some [CHR 0x02, CHR 0x00, CHR 0x00, CHR 0x00]) [],
                Data_item (Key_U32 197) (Some [CHR 0x01, CHR 0x00]) []]"
    by code_simp
  let ?mixed = "[(3, Attr_U32 2), (197, Attr_other NLA_FLAG)]"
  have ok': "\<forall>a\<in>set ?mixed. attr_ok a"
    by (simp add: attr_ok_def nla_distinct)
  have unsup: "\<not> (\<forall>a\<in>set ?mixed. attr_supported a)"
    by (simp add: attr_supported_def)
  have mixed: "request_args 103 0 ?mixed =
     [VA_int 103, VA_int 0, VA_int 3, VA_int NLA_U32, VA_int 2,
      VA_int 197, VA_int NLA_FLAG, VA_int (- 1)]"
    by (simp add: request_args_def attr_args_def)
  have a: "backend_nl80211_process_request_args (request_args 103 0 attrs_vendor) =
           Inr (Data_item (Key_U32 103) (Some (host_bytes 2 (sint (0 :: s32)))) []
                  # map attr_node attrs_vendor)"
    using process_request_args_tags [where attrs = attrs_vendor and cmd = 103 and flags = 0
        and attr_id = 0] ok sup
    by simp
  have b: "backend_nl80211_process_request_args (request_args 103 0 ?mixed) = Inr []"
    using process_request_args_tags [where attrs = ?mixed and cmd = 103 and flags = 0
        and attr_id = 0] ok' unsup
    by simp
  have c: "backend_nl80211_process_request_args
     [VA_int 103, VA_int 0, VA_int 197, VA_int NLA_FLAG, VA_int 1, VA_int (- 1)] = Inr []"
    using process_request_args_tags [where attrs = "[]" and attr_id = 197 and cmd' = 103
        and flags' = 0 and rest = "[VA_int 1, VA_int (- 1)]"]
    by simp
  show ?thesis
    using a b c by (simp only: nodes mixed simp_thms)
qed

theorem process_request_args_flag_counterexample:
  "backend_nl80211_process_request_args
     [VA_int 103, VA_int 0, VA_int 3, VA_int NLA_FLAG, VA_int (- 1)] = Inr []"
  by code_simp

end
